theory Spec2Isabelle
  imports Main
begin

section \<open>Exceptions, events and the database world\<close>

text \<open>
  The tree manager of \<^verbatim>\<open>contentcuration/db/models/manager.py\<close> talks to a
  database.  Its effects are made explicit: a \<open>world\<close> holds the trace of what the
  manager has done so far and a script with the outcomes of the database operations
  that can fail (the row-lock statements and the commits), consumed one per operation;
  an exhausted script means that the operation succeeds.  Exceptions are values.
\<close>

datatype exn =
    OperationalError string
  | RuntimeError string
  | AttributeError string
  | KeyError string
  | ValueError string
  | IntegrityError string
  | OtherError string

datatype event =
    TxBegin
  | LockTree int
  | LogTimeSpent
  | TxCommit
  | TxRollback
  | LogDeadlock
  | BodyRun
  | MpttRefresh
  | MoveNodeCall
  | SaveNode
  | NodeMovedSignal

record world =
  script :: "exn option list"
  trace :: "event list"

definition emit :: "event \<Rightarrow> world \<Rightarrow> world" where
  "emit ev w = w\<lparr>trace := trace w @ [ev]\<rparr>"

text \<open>A database operation that can fail: it is recorded, then takes its outcome from the script.\<close>

definition db_op :: "event \<Rightarrow> world \<Rightarrow> exn option \<times> world" where
  "db_op ev w =
     (case script w of
        [] \<Rightarrow> (None, emit ev w)
      | r # rs \<Rightarrow> (r, emit ev (w\<lparr>script := rs\<rparr>)))"

text \<open>Python's \<^verbatim>\<open>needle in hay\<close> on strings.\<close>

fun startswith :: "string \<Rightarrow> string \<Rightarrow> bool" where
  "startswith [] hay = True"
| "startswith (c # cs) [] = False"
| "startswith (c # cs) (h # hs) = (c = h \<and> startswith cs hs)"

fun contains :: "string \<Rightarrow> string \<Rightarrow> bool" where
  "contains needle [] = (needle = [])"
| "contains needle (h # hs) = (startswith needle (h # hs) \<or> contains needle hs)"

section \<open>The tree lock manager\<close>

text \<open>
  \<^verbatim>\<open>_attempt_lock\<close> is a generator-based context manager.  Entering it runs the
  generator up to its \<^verbatim>\<open>yield\<close>: the transaction is opened and one row-lock
  statement is issued per tree id, in the order of the list.  A statement that raises
  leaves \<^verbatim>\<open>transaction.atomic()\<close> with the exception, which rolls back.
\<close>

fun acquire :: "int list \<Rightarrow> world \<Rightarrow> exn option \<times> world" where
  "acquire [] w = (None, w)"
| "acquire (tree_id # rest) w =
     (case db_op (LockTree tree_id) w of
        (Some e, w') \<Rightarrow> (Some e, w')
      | (None, w') \<Rightarrow> acquire rest w')"

definition attempt_lock_enter :: "int list \<Rightarrow> world \<Rightarrow> exn option \<times> world" where
  "attempt_lock_enter tree_ids w =
     (case acquire tree_ids (emit TxBegin w) of
        (Some e, w') \<Rightarrow> (Some e, emit TxRollback w')
      | (None, w') \<Rightarrow> (None, w'))"

text \<open>
  Leaving \<^verbatim>\<open>_attempt_lock\<close>: with an exception of the body, the exception is thrown
  into the generator at its \<^verbatim>\<open>yield\<close>, the transaction rolls back and the exception
  goes on (the time is not logged); without one, the time is logged and the transaction
  commits, which can fail.
\<close>

definition attempt_lock_exit :: "exn option \<Rightarrow> world \<Rightarrow> exn option \<times> world" where
  "attempt_lock_exit exc w =
     (case exc of
        Some e \<Rightarrow> (Some e, emit TxRollback w)
      | None \<Rightarrow>
          (case db_op TxCommit (emit LogTimeSpent w) of
             (Some e, w') \<Rightarrow> (Some e, emit TxRollback w')
           | (None, w') \<Rightarrow> (None, w')))"

text \<open>Closing the generator while it is suspended at its \<^verbatim>\<open>yield\<close> rolls back.\<close>

definition attempt_lock_close :: "world \<Rightarrow> world" where
  "attempt_lock_close w = emit TxRollback w"

text \<open>The model's class flags read by \<^verbatim>\<open>lock_mptt\<close>.\<close>

record mptt_flags =
  mptt_is_tracking :: bool
  mptt_updates_enabled :: bool

text \<open>\<^verbatim>\<open>sorted((t for t in set(tree_ids) if t is not None))\<close>\<close>

definition normalize_tree_ids :: "int option list \<Rightarrow> int list" where
  "normalize_tree_ids tree_ids = sort (List.map_filter (\<lambda>t. t) (remdups tree_ids))"

definition locking :: "mptt_flags \<Rightarrow> int option list \<Rightarrow> bool" where
  "locking m tree_ids =
     (\<not> mptt_is_tracking m \<and> mptt_updates_enabled m \<and> normalize_tree_ids tree_ids \<noteq> [])"

text \<open>
  The \<^verbatim>\<open>except OperationalError as e\<close> clause of \<^verbatim>\<open>lock_mptt\<close>: a deadlock is
  logged and the lock is attempted once more, outside the \<^verbatim>\<open>try\<close>; the clause either
  raises (\<open>Inl\<close>) or reaches its own \<^verbatim>\<open>yield\<close> (\<open>Inr\<close>).
\<close>

definition on_exception :: "int list \<Rightarrow> exn \<Rightarrow> world \<Rightarrow> (exn + unit) \<times> world" where
  "on_exception tree_ids e w =
     (case e of
        OperationalError msg \<Rightarrow>
          (if contains ''deadlock detected'' msg then
             (case attempt_lock_enter tree_ids (emit LogDeadlock w) of
                (Some e2, w') \<Rightarrow> (Inl e2, w')
              | (None, w') \<Rightarrow> (Inr (), w'))
           else (Inl e, w))
      | _ \<Rightarrow> (Inl e, w))"

text \<open>
  Where the generator of \<^verbatim>\<open>lock_mptt\<close> is suspended once it has been entered: at the
  \<^verbatim>\<open>yield\<close> of the \<^verbatim>\<open>try\<close>, at the one of the \<^verbatim>\<open>except\<close> clause, or at
  the plain one of the \<^verbatim>\<open>else\<close> branch.
\<close>

datatype yield_point = AtTryYield | AtRetryYield | AtPlainYield

definition lock_mptt_enter ::
  "mptt_flags \<Rightarrow> int option list \<Rightarrow> world \<Rightarrow> (exn + yield_point) \<times> world" where
  "lock_mptt_enter m tree_ids w =
     (let ids = normalize_tree_ids tree_ids in
      if \<not> mptt_is_tracking m \<and> mptt_updates_enabled m \<and> ids \<noteq> [] then
        (case attempt_lock_enter ids w of
           (None, w1) \<Rightarrow> (Inr AtTryYield, w1)
         | (Some e, w1) \<Rightarrow>
             (case on_exception ids e w1 of
                (Inl e2, w2) \<Rightarrow> (Inl e2, w2)
              | (Inr u, w2) \<Rightarrow> (Inr AtRetryYield, w2)))
      else (Inr AtPlainYield, w))"

text \<open>
  Leaving \<^verbatim>\<open>lock_mptt\<close> (contextlib's \<^verbatim>\<open>__exit__\<close>): the generator is resumed,
  with the body's exception thrown in if there is one.  A generator that yields again
  instead of finishing makes contextlib raise RuntimeError, and the suspended generator
  is then closed.
\<close>

definition didnt_stop :: "exn option \<Rightarrow> string" where
  "didnt_stop exc =
     (case exc of
        None \<Rightarrow> ''generator didn'' @ [CHR 0x27] @ ''t stop''
      | Some e \<Rightarrow> ''generator didn'' @ [CHR 0x27] @ ''t stop after throw()'')"

definition lock_mptt_exit ::
  "int option list \<Rightarrow> yield_point \<Rightarrow> exn option \<Rightarrow> world \<Rightarrow> exn option \<times> world" where
  "lock_mptt_exit tree_ids at exc w =
     (let ids = normalize_tree_ids tree_ids in
      case at of
        AtPlainYield \<Rightarrow> (exc, w)
      | AtRetryYield \<Rightarrow> attempt_lock_exit exc w
      | AtTryYield \<Rightarrow>
          (case attempt_lock_exit exc w of
             (None, w1) \<Rightarrow> (None, w1)
           | (Some e, w1) \<Rightarrow>
               (case on_exception ids e w1 of
                  (Inl e2, w2) \<Rightarrow> (Some e2, w2)
                | (Inr u, w2) \<Rightarrow>
                    (Some (RuntimeError (didnt_stop exc)), attempt_lock_close w2))))"

text \<open>
  \<^verbatim>\<open>with self.lock_mptt(*tree_ids): body\<close>.  The statement runs its body once, after
  the manager has been entered, and not at all when entering raises.
\<close>

definition with_lock_mptt ::
  "mptt_flags \<Rightarrow> int option list \<Rightarrow> (world \<Rightarrow> exn option \<times> world) \<Rightarrow> world
     \<Rightarrow> exn option \<times> world" where
  "with_lock_mptt m tree_ids body w =
     (case lock_mptt_enter m tree_ids w of
        (Inl e, w1) \<Rightarrow> (Some e, w1)
      | (Inr at, w1) \<Rightarrow>
          (case body (emit BodyRun w1) of
             (r, w2) \<Rightarrow> lock_mptt_exit tree_ids at r w2))"

text \<open>A body that only completes or raises.\<close>

definition raising :: "exn option \<Rightarrow> world \<Rightarrow> exn option \<times> world" where
  "raising r w = (r, w)"

text \<open>The claim's deadlock condition: an OperationalError whose message contains the marker.\<close>

definition is_deadlock :: "exn \<Rightarrow> bool" where
  "is_deadlock e =
     (case e of OperationalError msg \<Rightarrow> contains ''deadlock detected'' msg | _ \<Rightarrow> False)"

text \<open>The number of lock attempts a trace holds: each opens its own transaction.\<close>

definition attempts :: "event list \<Rightarrow> nat" where
  "attempts evs = count_list evs TxBegin"

definition body_runs :: "event list \<Rightarrow> nat" where
  "body_runs evs = count_list evs BodyRun"

section \<open>Nodes\<close>

text \<open>
  Attribute values of a node as Python has them: None, strings, booleans, integers and
  references to other nodes (by primary key).
\<close>

datatype pyval = PNone | PStr string | PBool bool | PInt int | PRef string

text \<open>
  A row of the content node table, with the fields the manager reads.  The primary key
  \<^verbatim>\<open>id\<close> is called \<open>pk\<close> (Django's alias for it).
\<close>

record node_rec =
  pk :: string
  node_id :: string
  parent_id :: "string option"
  tree_id :: int
  lft :: int
  rght :: int
  level :: int
  kind_id :: string
  content_id :: pyval
  title :: pyval
  description :: pyval
  language_id :: pyval
  license_id :: pyval
  license_description :: pyval
  thumbnail_encoding :: pyval
  extra_fields :: pyval
  copyright_holder :: pyval
  author :: pyval
  provider :: pyval
  role_visibility :: pyval
  aggregator :: pyval
  original_channel_id :: "string option"
  original_source_node_id :: "string option"
  freeze_authoring_data :: bool

section \<open>Moving a node\<close>

text \<open>
  The body of the \<^verbatim>\<open>with\<close> statement of \<^verbatim>\<open>move_node\<close>: the coordinates are
  refreshed, mptt's \<^verbatim>\<open>_move_node\<close> moves the node and the node is saved; each of the
  three is a database operation that can fail.
\<close>

definition move_body :: "world \<Rightarrow> exn option \<times> world" where
  "move_body w =
     (case db_op MpttRefresh w of
        (Some e, w1) \<Rightarrow> (Some e, w1)
      | (None, w1) \<Rightarrow>
          (case db_op MoveNodeCall w1 of
             (Some e, w2) \<Rightarrow> (Some e, w2)
           | (None, w2) \<Rightarrow> db_op SaveNode w2))"

text \<open>
  \<^verbatim>\<open>move_node\<close> evaluates \<^verbatim>\<open>node.tree_id\<close> and \<^verbatim>\<open>target.tree_id\<close> as the
  arguments of \<^verbatim>\<open>lock_mptt\<close> before anything else; reading an attribute of None
  raises AttributeError (here carrying the attribute's name).  The signal is sent after
  the \<^verbatim>\<open>with\<close> statement.
\<close>

definition move_node ::
  "mptt_flags \<Rightarrow> node_rec \<Rightarrow> node_rec option \<Rightarrow> string \<Rightarrow> world \<Rightarrow> exn option \<times> world" where
  "move_node m node target position w =
     (case target of
        None \<Rightarrow> (Some (AttributeError ''tree_id''), w)
      | Some t \<Rightarrow>
          (case with_lock_mptt m [Some (tree_id node), Some (tree_id t)] move_body w of
             (Some e, w1) \<Rightarrow> (Some e, w1)
           | (None, w1) \<Rightarrow> (None, emit NodeMovedSignal w1)))"

section \<open>Cloning a node\<close>

text \<open>A dictionary with string keys, as \<^verbatim>\<open>_clone_node\<close> builds and returns.\<close>

type_synonym pydict = "string \<rightharpoonup> pyval"

definition opt_val :: "string option \<Rightarrow> pyval" where
  "opt_val s = (case s of None \<Rightarrow> PNone | Some x \<Rightarrow> PStr x)"

text \<open>
  What \<^verbatim>\<open>source.get_original_node()\<close> and, on its result, \<^verbatim>\<open>get_channel()\<close> answer
  (methods of the content node model, outside this file): the original node's
  \<^verbatim>\<open>node_id\<close> and the id of its channel, None when it has no channel.  The manager
  takes the answer as given.
\<close>

record origin =
  origin_node_id :: string
  origin_channel_id :: "string option"

definition get_source_attributes :: "node_rec \<Rightarrow> pydict" where
  "get_source_attributes source = map_of
     [(''content_id'', content_id source),
      (''kind_id'', PStr (kind_id source)),
      (''title'', title source),
      (''description'', description source),
      (''language_id'', language_id source),
      (''license_id'', license_id source),
      (''license_description'', license_description source),
      (''thumbnail_encoding'', thumbnail_encoding source),
      (''extra_fields'', extra_fields source),
      (''copyright_holder'', copyright_holder source),
      (''author'', author source),
      (''provider'', provider source),
      (''role_visibility'', role_visibility source)]"

text \<open>
  The end of \<^verbatim>\<open>_clone_node\<close>, for legacy nodes: an \<^verbatim>\<open>original_channel_id\<close> or
  \<^verbatim>\<open>original_source_node_id\<close> that is None in the dictionary is filled in from the
  original node.
\<close>

definition ensure_original :: "(node_rec \<Rightarrow> origin) \<Rightarrow> node_rec \<Rightarrow> pydict \<Rightarrow> pydict" where
  "ensure_original get_original source copy2 =
     (if copy2 ''original_channel_id'' = Some PNone
         \<or> copy2 ''original_source_node_id'' = Some PNone then
        (let original_node = get_original source;
             c1 = (if copy2 ''original_channel_id'' = Some PNone
                   then copy2(''original_channel_id'' \<mapsto>
                          opt_val (origin_channel_id original_node))
                   else copy2);
             c2 = (if c1 ''original_source_node_id'' = Some PNone
                   then c1(''original_source_node_id'' \<mapsto>
                          PStr (origin_node_id original_node))
                   else c1)
         in c2)
      else copy2)"

text \<open>
  \<^verbatim>\<open>_clone_node\<close>.  The uuids come from a supply \<open>gen\<close> read at a counter: one for the
  id unless the caller's \<^verbatim>\<open>pk\<close> is truthy, one for the \<^verbatim>\<open>node_id\<close>; the counter is
  returned advanced.  \<^verbatim>\<open>can_edit_source_channel\<close> may be None, which is falsy.  The
  overrides are merged in when they are a dict; the fix-up for legacy nodes runs after
  them.
\<close>

definition clone_defaults ::
  "node_rec \<Rightarrow> pyval \<Rightarrow> pyval \<Rightarrow> bool option \<Rightarrow> string \<Rightarrow> string \<Rightarrow> pydict" where
  "clone_defaults source parent source_channel_id can_edit_source_channel new_id new_node_id =
     map_of
       [(''id'', PStr new_id),
        (''node_id'', PStr new_node_id),
        (''aggregator'', aggregator source),
        (''cloned_source'', PRef (pk source)),
        (''source_channel_id'', source_channel_id),
        (''source_node_id'', PStr (node_id source)),
        (''original_channel_id'', opt_val (original_channel_id source)),
        (''original_source_node_id'', opt_val (original_source_node_id source)),
        (''freeze_authoring_data'',
           PBool (can_edit_source_channel \<noteq> Some True \<or> freeze_authoring_data source)),
        (''changed'', PBool True),
        (''published'', PBool False),
        (''parent_id'', parent)]"

definition clone_node ::
  "(nat \<Rightarrow> string) \<Rightarrow> (node_rec \<Rightarrow> origin) \<Rightarrow> node_rec \<Rightarrow> pyval \<Rightarrow> pyval
     \<Rightarrow> bool option \<Rightarrow> string option \<Rightarrow> pydict option \<Rightarrow> nat \<Rightarrow> pydict \<times> nat" where
  "clone_node gen get_original source parent source_channel_id can_edit_source_channel
       pk_arg mods n =
     (let (new_id, n1) =
            (case pk_arg of
               None \<Rightarrow> (gen n, Suc n)
             | Some p \<Rightarrow> if p = [] then (gen n, Suc n) else (p, n));
          copy0 = clone_defaults source parent source_channel_id can_edit_source_channel
                    new_id (gen n1);
          copy1 = copy0 ++ get_source_attributes source;
          copy2 = (case mods of Some d \<Rightarrow> copy1 ++ d | None \<Rightarrow> copy1)
      in (ensure_original get_original source copy2, Suc n1))"

text \<open>A video node of tree 1 and a uuid supply, for the examples.\<close>

definition video :: "string \<Rightarrow> int \<Rightarrow> node_rec" where
  "video name l =
     \<lparr>pk = name, node_id = ''n-'' @ name, parent_id = None, tree_id = 1,
      lft = l, rght = l + 1, level = 1, kind_id = ''video'',
      content_id = PStr (''c-'' @ name), title = PStr name, description = PNone,
      language_id = PNone, license_id = PNone, license_description = PNone,
      thumbnail_encoding = PNone, extra_fields = PNone, copyright_holder = PNone,
      author = PNone, provider = PNone, role_visibility = PStr ''learner'',
      aggregator = PNone, original_channel_id = Some ''ch0'',
      original_source_node_id = Some ''n0'', freeze_authoring_data = False\<rparr>"

fun uuid_of :: "nat \<Rightarrow> string" where
  "uuid_of 0 = ''u''"
| "uuid_of (Suc n) = CHR ''i'' # uuid_of n"

definition origin_of :: "node_rec \<Rightarrow> origin" where
  "origin_of source = \<lparr>origin_node_id = ''n-orig'', origin_channel_id = Some ''ch-orig''\<rparr>"

section \<open>Copying the dependent records\<close>

text \<open>
  The rows of the file, assessment item, tag and node-tag tables, with the fields the
  manager reads or rewrites.  An id of None is one the database assigns on insert.
\<close>

record file_rec =
  file_id :: "string option"
  file_contentnode_id :: "string option"
  file_assessment_item_id :: "string option"
  file_checksum :: string

record item_rec =
  item_id :: "string option"
  item_contentnode_id :: string
  assessment_id :: string

record tag_rec =
  tag_id :: string
  tag_name :: string
  tag_channel :: "string option"

record tagging =
  contenttag_id :: string
  tagging_contentnode_id :: "string option"

text \<open>\<^verbatim>\<open>_parse_filter_kwargs\<close>: one node, or a set of nodes, or ValueError.\<close>

datatype filter_kwargs = ByNode string | ByNodes "string list"

definition parse_filter_kwargs :: "string option \<Rightarrow> string list option \<Rightarrow> exn + filter_kwargs" where
  "parse_filter_kwargs contentnode contentnode_in =
     (case contentnode of
        Some n \<Rightarrow> Inr (ByNode n)
      | None \<Rightarrow>
          (case contentnode_in of
             Some ns \<Rightarrow> Inr (ByNodes ns)
           | None \<Rightarrow> Inl (ValueError ''Must specify one of contentnode or contentnode__in'')))"

fun selects :: "filter_kwargs \<Rightarrow> string option \<Rightarrow> bool" where
  "selects f None = False"
| "selects (ByNode n) (Some c) = (c = n)"
| "selects (ByNodes ns) (Some c) = (c \<in> set ns)"

text \<open>
  The loop of \<^verbatim>\<open>_copy_files\<close>: the id is cleared and the node is looked up with
  \<^verbatim>\<open>source_copy_id_map[...]\<close>, which raises KeyError for a missing key.
\<close>

fun remap_files :: "(string \<rightharpoonup> string) \<Rightarrow> file_rec list \<Rightarrow> exn + file_rec list" where
  "remap_files m [] = Inr []"
| "remap_files m (f # fs) =
     (case file_contentnode_id f of
        None \<Rightarrow> Inl (KeyError ''None'')
      | Some c \<Rightarrow>
          (case m c of
             None \<Rightarrow> Inl (KeyError c)
           | Some c' \<Rightarrow>
               (case remap_files m fs of
                  Inl e \<Rightarrow> Inl e
                | Inr fs' \<Rightarrow> Inr (f\<lparr>file_id := None, file_contentnode_id := Some c'\<rparr> # fs'))))"

text \<open>\<^verbatim>\<open>_copy_files\<close>; the result holds the rows given to \<^verbatim>\<open>bulk_create\<close>.\<close>

definition copy_files ::
  "file_rec list \<Rightarrow> (string \<rightharpoonup> string) \<Rightarrow> string option \<Rightarrow> string list option
     \<Rightarrow> exn + file_rec list" where
  "copy_files files source_copy_id_map contentnode contentnode_in =
     (case parse_filter_kwargs contentnode contentnode_in of
        Inl e \<Rightarrow> Inl e
      | Inr f \<Rightarrow>
          remap_files source_copy_id_map
            (filter (\<lambda>x. selects f (file_contentnode_id x)) files))"

text \<open>
  The first loop of \<^verbatim>\<open>_copy_assessment_items\<close>: each item loses its id, is pointed at
  the copy of its node (KeyError for a missing key) and is entered in the lookup from
  \<^verbatim>\<open>contentnode_id + ":" + assessment_id\<close> to its old id.
\<close>

definition item_key :: "item_rec \<Rightarrow> string" where
  "item_key i = item_contentnode_id i @ '':'' @ assessment_id i"

fun remap_items ::
  "(string \<rightharpoonup> string) \<Rightarrow> item_rec list \<Rightarrow> (string \<rightharpoonup> string option)
     \<Rightarrow> exn + (item_rec list \<times> (string \<rightharpoonup> string option))" where
  "remap_items m [] lookup = Inr ([], lookup)"
| "remap_items m (i # is) lookup =
     (case m (item_contentnode_id i) of
        None \<Rightarrow> Inl (KeyError (item_contentnode_id i))
      | Some c' \<Rightarrow>
          (let i' = i\<lparr>item_id := None, item_contentnode_id := c'\<rparr> in
           case remap_items m is (lookup(item_key i' \<mapsto> item_id i)) of
             Inl e \<Rightarrow> Inl e
           | Inr (is', lookup') \<Rightarrow> Inr (i' # is', lookup')))"

text \<open>\<^verbatim>\<open>bulk_create\<close> gives the rows the ids the database assigns: \<open>assign k\<close> to row \<open>k\<close>.\<close>

fun bulk_create_items :: "(nat \<Rightarrow> string) \<Rightarrow> nat \<Rightarrow> item_rec list \<Rightarrow> item_rec list" where
  "bulk_create_items assign k [] = []"
| "bulk_create_items assign k (i # is) =
     i\<lparr>item_id := Some (assign k)\<rparr> # bulk_create_items assign (Suc k) is"

text \<open>The second loop: from old ids to new ids, through the key.\<close>

fun new_id_lookup ::
  "(string \<rightharpoonup> string option) \<Rightarrow> item_rec list \<Rightarrow> (string option \<rightharpoonup> string option)
     \<Rightarrow> exn + (string option \<rightharpoonup> string option)" where
  "new_id_lookup old [] new = Inr new"
| "new_id_lookup old (i # is) new =
     (case old (item_key i) of
        None \<Rightarrow> Inl (KeyError (item_key i))
      | Some old_id \<Rightarrow> new_id_lookup old is (new(old_id \<mapsto> item_id i)))"

text \<open>The third loop: the files of the items are pointed at the new items.\<close>

fun remap_item_files ::
  "(string option \<rightharpoonup> string option) \<Rightarrow> file_rec list \<Rightarrow> exn + file_rec list" where
  "remap_item_files new [] = Inr []"
| "remap_item_files new (f # fs) =
     (case new (file_assessment_item_id f) of
        None \<Rightarrow> Inl (KeyError ''assessment_item_id'')
      | Some i' \<Rightarrow>
          (case remap_item_files new fs of
             Inl e \<Rightarrow> Inl e
           | Inr fs' \<Rightarrow> Inr (f\<lparr>file_id := None, file_assessment_item_id := i'\<rparr> # fs')))"

text \<open>
  \<^verbatim>\<open>_copy_assessment_items\<close>; the result holds the items and the files given to the
  two \<^verbatim>\<open>bulk_create\<close> calls.
\<close>

definition copy_assessment_items ::
  "(nat \<Rightarrow> string) \<Rightarrow> item_rec list \<Rightarrow> file_rec list \<Rightarrow> (string \<rightharpoonup> string)
     \<Rightarrow> string option \<Rightarrow> string list option \<Rightarrow> exn + (item_rec list \<times> file_rec list)" where
  "copy_assessment_items assign items files source_copy_id_map contentnode contentnode_in =
     (case parse_filter_kwargs contentnode contentnode_in of
        Inl e \<Rightarrow> Inl e
      | Inr f \<Rightarrow>
          (let node_assessmentitems = filter (\<lambda>i. selects f (Some (item_contentnode_id i))) items;
               node_assessmentitem_files =
                 filter (\<lambda>x. file_assessment_item_id x \<noteq> None
                              \<and> file_assessment_item_id x \<in> item_id ` set node_assessmentitems)
                   files
           in case remap_items source_copy_id_map node_assessmentitems Map.empty of
                Inl e \<Rightarrow> Inl e
              | Inr (remapped, old_lookup) \<Rightarrow>
                  (let created = bulk_create_items assign 0 remapped in
                   case new_id_lookup old_lookup created Map.empty of
                     Inl e \<Rightarrow> Inl e
                   | Inr new_lookup \<Rightarrow>
                       (case remap_item_files new_lookup node_assessmentitem_files of
                          Inl e \<Rightarrow> Inl e
                        | Inr fs \<Rightarrow> Inr (created, fs)))))"

text \<open>
  The loop of \<^verbatim>\<open>_copy_tags\<close> over the tags to copy: a tag whose name has a tag without
  channel is mapped to that tag, any other to a new tag of the same name, with a fresh id.
\<close>

fun map_tags ::
  "(nat \<Rightarrow> string) \<Rightarrow> (string \<rightharpoonup> string) \<Rightarrow> tag_rec list \<Rightarrow> nat
     \<Rightarrow> (string \<rightharpoonup> string) \<Rightarrow> tag_rec list \<times> (string \<rightharpoonup> string)" where
  "map_tags gen existing [] n tag_id_map = ([], tag_id_map)"
| "map_tags gen existing (t # ts) n tag_id_map =
     (case existing (tag_name t) of
        Some e \<Rightarrow> map_tags gen existing ts n (tag_id_map(tag_id t \<mapsto> e))
      | None \<Rightarrow>
          (let new_tag = \<lparr>tag_id = gen n, tag_name = tag_name t, tag_channel = None\<rparr>;
               (created, tm) = map_tags gen existing ts (Suc n) (tag_id_map(tag_id t \<mapsto> gen n))
           in (new_tag # created, tm)))"

text \<open>
  Modelled from the spec: \<^verbatim>\<open>bulk_create\<close> on the node-tag table.  The table is the
  join table of the \<^verbatim>\<open>tags\<close> field, declared with the models, not in this file; both
  its columns are NOT NULL, so the database refuses a row without a node and the call raises
  IntegrityError.  Nothing of the batch is written then.
\<close>

definition bulk_create_taggings :: "tagging list \<Rightarrow> exn + tagging list" where
  "bulk_create_taggings mappings =
     (if None \<in> set (map tagging_contentnode_id mappings)
      then Inl (IntegrityError ''null value in column contentnode_id violates not-null constraint'')
      else Inr mappings)"

text \<open>
  \<^verbatim>\<open>_copy_tags\<close>; the result holds the tags and the node-tag rows the two
  \<^verbatim>\<open>bulk_create\<close> calls have written.  The node of a row is looked up with
  \<^verbatim>\<open>source_copy_id_map.get(...)\<close>, which answers None for a missing key; the row is
  built with it and handed to \<^verbatim>\<open>bulk_create\<close>.
\<close>

definition copy_tags ::
  "(nat \<Rightarrow> string) \<Rightarrow> tag_rec list \<Rightarrow> tagging list \<Rightarrow> (string \<rightharpoonup> string)
     \<Rightarrow> string option \<Rightarrow> string list option \<Rightarrow> exn + (tag_rec list \<times> tagging list)" where
  "copy_tags gen tags taggings source_copy_id_map contentnode contentnode_in =
     (case parse_filter_kwargs contentnode contentnode_in of
        Inl e \<Rightarrow> Inl e
      | Inr f \<Rightarrow>
          (let node_tags_mappings = filter (\<lambda>m. selects f (tagging_contentnode_id m)) taggings;
               tags_to_copy =
                 concat (map (\<lambda>m. filter (\<lambda>t. tag_id t = contenttag_id m \<and> tag_channel t \<noteq> None) tags)
                           node_tags_mappings);
               existing_tags_lookup =
                 map_of (rev (map (\<lambda>t. (tag_name t, tag_id t))
                   (filter (\<lambda>t. tag_name t \<in> tag_name ` set tags_to_copy \<and> tag_channel t = None)
                      tags)));
               (tags_to_create, tag_id_map) =
                 map_tags gen existing_tags_lookup tags_to_copy 0 Map.empty;
               mappings_to_create =
                 map (\<lambda>m. \<lparr>contenttag_id =
                               (case tag_id_map (contenttag_id m) of
                                  Some t \<Rightarrow> t | None \<Rightarrow> contenttag_id m),
                            tagging_contentnode_id =
                               (case tagging_contentnode_id m of
                                  None \<Rightarrow> None | Some c \<Rightarrow> source_copy_id_map c)\<rparr>)
                   node_tags_mappings
           in case bulk_create_taggings mappings_to_create of
                Inl e \<Rightarrow> Inl e
              | Inr written \<Rightarrow> Inr (tags_to_create, written)))"

section \<open>Laying out a clone tree\<close>

text \<open>
  The data \<^verbatim>\<open>build_tree_nodes\<close> is given: a dictionary of fields with its
  \<^verbatim>\<open>children\<close>, each of the same form.  The nodes it returns carry the dictionary's
  fields and the four mptt attributes.  The rows of the content node table that a copy
  is placed at or creates are nodes of this form.
\<close>

datatype ctree = CT pydict "ctree list"

record lnode =
  payload :: pydict
  mptt_tree_id :: int
  mptt_level :: int
  mptt_lft :: int
  mptt_rght :: int

text \<open>
  \<^verbatim>\<open>treeify\<close>: the node is put on the stack with \<^verbatim>\<open>lft = cursor\<close>, the children
  follow, each from the cursor the one before returned plus one, a level deeper, and the
  node's \<^verbatim>\<open>rght\<close> is the cursor after them plus one, which is returned.  The stack is
  returned as a list; the node stands in it with the \<^verbatim>\<open>rght\<close> it gets in the end.
\<close>

fun treeify :: "int \<Rightarrow> ctree \<Rightarrow> int \<Rightarrow> int \<Rightarrow> lnode list \<times> int"
  and treeify_children :: "int \<Rightarrow> ctree list \<Rightarrow> int \<Rightarrow> int \<Rightarrow> lnode list \<times> int" where
  "treeify tid (CT data children) cursor lvl =
     (case treeify_children tid children cursor (lvl + 1) of
        (below, cursor') \<Rightarrow>
          (\<lparr>payload = data, mptt_tree_id = tid, mptt_level = lvl, mptt_lft = cursor,
            mptt_rght = cursor' + 1\<rparr> # below,
           cursor' + 1))"
| "treeify_children tid [] cursor lvl = ([], cursor)"
| "treeify_children tid (child # rest) cursor lvl =
     (case treeify tid child (cursor + 1) lvl of
        (s1, c1) \<Rightarrow>
          (case treeify_children tid rest c1 lvl of
             (s2, c2) \<Rightarrow> (s1 @ s2, c2)))"

text \<open>
  \<^verbatim>\<open>build_tree_nodes\<close>.  The target is given with its coordinates as refreshed;
  \<open>next_tree_id\<close> is what \<^verbatim>\<open>_get_next_tree_id\<close> issues.  The result is the stack and,
  with a target, the arguments of the call of \<^verbatim>\<open>_create_space\<close>.
\<close>

definition start_of :: "int \<Rightarrow> lnode option \<Rightarrow> string \<Rightarrow> int \<times> int \<times> int" where
  "start_of next_tree_id target position =
     (case target of
        Some t \<Rightarrow>
          (if position = ''left'' \<or> position = ''right'' then
             (mptt_tree_id t,
              (if position = ''left'' then mptt_lft t else mptt_rght t + 1),
              mptt_level t)
           else
             (mptt_tree_id t,
              (if position = ''first-child'' then mptt_lft t + 1 else mptt_rght t),
              mptt_level t + 1))
      | None \<Rightarrow> (next_tree_id, 1, 0))"

definition build_tree_nodes ::
  "int \<Rightarrow> ctree \<Rightarrow> lnode option \<Rightarrow> string \<Rightarrow> lnode list \<times> (int \<times> int \<times> int) option" where
  "build_tree_nodes next_tree_id data target position =
     (case start_of next_tree_id target position of
        (tid, cursor, lvl) \<Rightarrow>
          (let stack = fst (treeify tid data cursor lvl) in
           (stack,
            (case target of
               Some t \<Rightarrow> Some (2 * int (length stack), cursor - 1, tid)
             | None \<Rightarrow> None))))"

text \<open>
  To state the nested-set invariants, the nodes of a stack are arranged as a tree again:
  \<open>erase\<close> gives back the data such a tree was laid out from, \<open>preorder\<close> the stack.
\<close>

datatype ltree = LT lnode "ltree list"

fun lroot :: "ltree \<Rightarrow> lnode" where
  "lroot (LT n ks) = n"

fun erase :: "ltree \<Rightarrow> ctree" where
  "erase (LT n ks) = CT (payload n) (map erase ks)"

fun preorder :: "ltree \<Rightarrow> lnode list" where
  "preorder (LT n ks) = n # concat (map preorder ks)"

text \<open>
  The invariants at one node and below: the span is positive and odd, a leaf spans one
  unit, every child is one level deeper, in the same tree and strictly inside its parent,
  and of two children the earlier ends before the later starts.
\<close>

fun nested_ok :: "ltree \<Rightarrow> bool" where
  "nested_ok (LT n ks) =
     (mptt_lft n < mptt_rght n \<and> odd (mptt_rght n - mptt_lft n)
      \<and> (ks = [] \<longrightarrow> mptt_rght n = mptt_lft n + 1)
      \<and> (\<forall>k \<in> set ks.
            mptt_level (lroot k) = mptt_level n + 1
            \<and> mptt_tree_id (lroot k) = mptt_tree_id n
            \<and> mptt_lft n < mptt_lft (lroot k) \<and> mptt_rght (lroot k) < mptt_rght n
            \<and> nested_ok k)
      \<and> sorted_wrt (\<lambda>a b. mptt_rght (lroot a) < mptt_lft (lroot b)) ks)"

text \<open>No partial overlaps: two nodes are the same, or one is inside the other, or they are apart.\<close>

definition inside :: "lnode \<Rightarrow> lnode \<Rightarrow> bool" where
  "inside a b = (mptt_lft b < mptt_lft a \<and> mptt_rght a < mptt_rght b)"

definition apart :: "lnode \<Rightarrow> lnode \<Rightarrow> bool" where
  "apart a b = (mptt_rght a < mptt_lft b \<or> mptt_rght b < mptt_lft a)"

definition laminar :: "lnode list \<Rightarrow> bool" where
  "laminar ns = (\<forall>a \<in> set ns. \<forall>b \<in> set ns. a = b \<or> inside a b \<or> inside b a \<or> apart a b)"

text \<open>The tree of the nodes \<^verbatim>\<open>treeify\<close> lays out, built along the same recursion.\<close>

fun lay :: "int \<Rightarrow> ctree \<Rightarrow> int \<Rightarrow> int \<Rightarrow> ltree \<times> int"
  and lay_children :: "int \<Rightarrow> ctree list \<Rightarrow> int \<Rightarrow> int \<Rightarrow> ltree list \<times> int" where
  "lay tid (CT data children) cursor lvl =
     (case lay_children tid children cursor (lvl + 1) of
        (ks, cursor') \<Rightarrow>
          (LT \<lparr>payload = data, mptt_tree_id = tid, mptt_level = lvl, mptt_lft = cursor,
               mptt_rght = cursor' + 1\<rparr> ks,
           cursor' + 1))"
| "lay_children tid [] cursor lvl = ([], cursor)"
| "lay_children tid (child # rest) cursor lvl =
     (case lay tid child (cursor + 1) lvl of
        (k, c1) \<Rightarrow>
          (case lay_children tid rest c1 lvl of
             (ks, c2) \<Rightarrow> (k # ks, c2)))"

section \<open>Copying a subtree\<close>

text \<open>
  The source side of a copy.  The content node table is taken to be consistent: the rows
  form trees, so a node is given with the subtrees of its children, its children (by the
  parent reference) are the roots of these, and its descendants (by the coordinates) are
  the nodes in them.  The copy is placed outside the subtree it copies, so these rows do not
  change while it runs.
\<close>

datatype snode = SNode node_rec "snode list"

fun row :: "snode \<Rightarrow> node_rec" where
  "row (SNode r ks) = r"

fun kids :: "snode \<Rightarrow> snode list" where
  "kids (SNode r ks) = ks"

text \<open>\<^verbatim>\<open>get_descendants(include_self=True)\<close>\<close>

fun flatten :: "snode \<Rightarrow> snode list" where
  "flatten (SNode r ks) = SNode r ks # concat (map flatten ks)"

text \<open>\<^verbatim>\<open>node.get_children().order_by("lft")\<close>\<close>

definition get_children :: "snode \<Rightarrow> snode list" where
  "get_children node = sort_key (\<lambda>k. lft (row k)) (kids node)"

text \<open>
  \<^verbatim>\<open>excluded_descendants\<close> is None or a dict keyed by \<^verbatim>\<open>node_id\<close>; only its keys are
  read.  None and the empty dict are falsy.
\<close>

definition truthy_keys :: "string list option \<Rightarrow> bool" where
  "truthy_keys excluded_descendants =
     (case excluded_descendants of None \<Rightarrow> False | Some ks \<Rightarrow> ks \<noteq> [])"

definition keys_of :: "string list option \<Rightarrow> string list" where
  "keys_of excluded_descendants = (case excluded_descendants of None \<Rightarrow> [] | Some ks \<Rightarrow> ks)"


text \<open>What a copy runs in: the uuid supply, the lookup of original nodes, and the table.\<close>

record env =
  env_gen :: "nat \<Rightarrow> string"
  env_original :: "node_rec \<Rightarrow> origin"
  env_db :: "snode list"



definition node_pk :: "lnode \<Rightarrow> pyval" where
  "node_pk n = (case payload n ''id'' of Some v \<Rightarrow> v | None \<Rightarrow> PNone)"






text \<open>
  Modelled from the spec: \<^verbatim>\<open>_create_space\<close> of django-mptt, which is not part of this
  repository.  Within the tree, every left and every right coordinate greater than
  \<open>after\<close> moves up by \<open>amount\<close>.
\<close>

definition create_space :: "int \<Rightarrow> int \<Rightarrow> int \<Rightarrow> lnode list \<Rightarrow> lnode list" where
  "create_space amount after tid table =
     map (\<lambda>r. if mptt_tree_id r = tid then
                 r\<lparr>mptt_lft := (if after < mptt_lft r then mptt_lft r + amount else mptt_lft r),
                   mptt_rght := (if after < mptt_rght r then mptt_rght r + amount else mptt_rght r)\<rparr>
               else r)
       table"



definition mark_changed :: "pyval \<Rightarrow> lnode list \<Rightarrow> lnode list" where
  "mark_changed v table =
     map (\<lambda>r. if node_pk r = v then r\<lparr>payload := (payload r)(''changed'' \<mapsto> PBool True)\<rparr> else r)
       table"



text \<open>
  \<^verbatim>\<open>_copy\<close>.  A node whose span is below the batch size is copied deep.  Any other is
  copied shallow, and its children, in the order of their left coordinates and without those
  whose \<^verbatim>\<open>node_id\<close> is excluded, are copied in turn as last children of the new node,
  without \<^verbatim>\<open>pk\<close> and overrides; the result is the new node alone.
\<close>

definition children_to_copy :: "snode \<Rightarrow> string list option \<Rightarrow> snode list" where
  "children_to_copy node excluded_descendants =
     (if truthy_keys excluded_descendants
      then filter (\<lambda>k. node_id (row k) \<notin> set (keys_of excluded_descendants)) (get_children node)
      else get_children node)"

lemma children_to_copy_smaller [termination_simp]:
  "child \<in> set (children_to_copy node excluded_descendants) \<Longrightarrow> size child < size node"
  by (cases node) (auto simp: children_to_copy_def get_children_def less_Suc_eq_le
      size_list_estimation' split: if_splits)




text \<open>
  Examples: a topic row, the tree of a topic \<open>r\<close> with a topic \<open>a\<close> of three videos and a
  video \<open>b\<close>, the environment of the examples and the state before a copy into an empty
  table.
\<close>

definition topic :: "string \<Rightarrow> int \<Rightarrow> int \<Rightarrow> node_rec" where
  "topic name l r = (video name l)\<lparr>rght := r, kind_id := ''topic''\<rparr>"

definition leaf :: "string \<Rightarrow> int \<Rightarrow> snode" where
  "leaf name l = SNode (video name l) []"

definition tree_a :: snode where
  "tree_a = SNode (topic ''a'' 2 9) [leaf ''a1'' 3, leaf ''a2'' 5, leaf ''a3'' 7]"

definition tree_r :: snode where
  "tree_r = SNode (topic ''r'' 1 12) [tree_a, leaf ''b'' 10]"









text \<open>A topic with one video, for the examples.\<close>

definition tree_small :: snode where
  "tree_small = SNode (topic ''r'' 1 4) [leaf ''b'' 2]"

definition env_small :: env where
  "env_small = \<lparr>env_gen = uuid_of, env_original = origin_of, env_db = [tree_small]\<rparr>"










section \<open>Properties of the tree lock manager\<close>

lemma set_map_filter_id: "set (List.map_filter (\<lambda>t. t) xs) = {t. Some t \<in> set xs}"
  by (force simp: List.map_filter_def image_iff)

lemma distinct_map_filter_id:
  "distinct xs \<Longrightarrow> distinct (List.map_filter (\<lambda>t. t) xs)"
  by (auto simp: List.map_filter_def distinct_map inj_on_def)

lemma normalize_sorted: "sorted (normalize_tree_ids a)"
  by (simp add: normalize_tree_ids_def)

lemma normalize_distinct: "distinct (normalize_tree_ids a)"
  by (simp add: normalize_tree_ids_def distinct_map_filter_id)

lemma normalize_set: "set (normalize_tree_ids a) = {t. Some t \<in> set a}"
  by (simp add: normalize_tree_ids_def set_map_filter_id)

lemma normalize_cong:
  assumes "{t. Some t \<in> set a} = {t. Some t \<in> set b}"
  shows "normalize_tree_ids a = normalize_tree_ids b"
  using assms
  by (intro sorted_distinct_set_unique) (simp_all add: normalize_sorted normalize_distinct normalize_set)

lemma db_op_trace: "db_op ev w = (r, w') \<Longrightarrow> trace w' = trace w @ [ev]"
  by (auto simp: db_op_def emit_def split: list.splits)

lemma acquire_trace:
  "acquire ids w = (r, w') \<Longrightarrow>
     \<exists>k \<le> length ids. trace w' = trace w @ map LockTree (take k ids) \<and> (r = None \<longrightarrow> k = length ids)"
proof (induction ids arbitrary: w)
  case Nil
  then show ?case by simp
next
  case (Cons t ts)
  show ?case
  proof (cases "db_op (LockTree t) w")
    case (Pair r1 w1)
    have tr1: "trace w1 = trace w @ [LockTree t]"
      using Pair by (rule db_op_trace)
    show ?thesis
    proof (cases r1)
      case None
      with Pair Cons.prems have "acquire ts w1 = (r, w')" by simp
      from Cons.IH[OF this] obtain k where k: "k \<le> length ts"
        "trace w' = trace w1 @ map LockTree (take k ts)" "r = None \<longrightarrow> k = length ts" by blast
      show ?thesis
        by (rule exI[of _ "Suc k"]) (use k tr1 in simp)
    next
      case (Some e)
      with Pair Cons.prems have "r = Some e" "w' = w1" by simp_all
      then show ?thesis
        by (intro exI[of _ "Suc 0"]) (use tr1 in simp)
    qed
  qed
qed

lemma count_locks [simp]:
  "count_list (map LockTree xs) TxBegin = 0" "count_list (map LockTree xs) BodyRun = 0"
  by (induction xs) simp_all

lemma acquire_attempts: "acquire ids w = (r, w') \<Longrightarrow> attempts (trace w') = attempts (trace w)"
  using acquire_trace[of ids w r w'] by (auto simp: attempts_def)

lemma acquire_body_runs: "acquire ids w = (r, w') \<Longrightarrow> body_runs (trace w') = body_runs (trace w)"
  using acquire_trace[of ids w r w'] by (auto simp: body_runs_def)

lemma attempt_lock_enter_trace:
  assumes "attempt_lock_enter ids w = (r, w')"
  shows "\<exists>k \<le> length ids.
           trace w' = trace w @ TxBegin # map LockTree (take k ids) @ (if r = None then [] else [TxRollback])
           \<and> (r = None \<longrightarrow> k = length ids)"
proof (cases "acquire ids (emit TxBegin w)")
  case (Pair r1 w1)
  from acquire_trace[OF Pair] obtain k where k: "k \<le> length ids"
    "trace w1 = trace (emit TxBegin w) @ map LockTree (take k ids)" "r1 = None \<longrightarrow> k = length ids"
    by blast
  show ?thesis
  proof (cases r1)
    case None
    with Pair assms have "r = None" "w' = w1" by (simp_all add: attempt_lock_enter_def)
    with k None show ?thesis by (intro exI[of _ k]) (simp add: emit_def)
  next
    case (Some e)
    with Pair assms have "r = Some e" "w' = emit TxRollback w1" by (auto simp: attempt_lock_enter_def)
    with k show ?thesis by (intro exI[of _ k]) (simp add: emit_def)
  qed
qed

lemma attempt_lock_enter_attempts:
  "attempt_lock_enter ids w = (r, w') \<Longrightarrow> attempts (trace w') = Suc (attempts (trace w))"
  using attempt_lock_enter_trace[of ids w r w'] by (auto simp: attempts_def)

lemma attempt_lock_enter_body_runs:
  "attempt_lock_enter ids w = (r, w') \<Longrightarrow> body_runs (trace w') = body_runs (trace w)"
  using attempt_lock_enter_trace[of ids w r w'] by (auto simp: body_runs_def)

lemma attempt_lock_exit_attempts:
  "attempt_lock_exit exc w = (r, w') \<Longrightarrow> attempts (trace w') = attempts (trace w)"
  by (auto simp: attempt_lock_exit_def attempts_def emit_def db_op_def split: option.splits list.splits prod.splits)

lemma attempt_lock_exit_body_runs:
  "attempt_lock_exit exc w = (r, w') \<Longrightarrow> body_runs (trace w') = body_runs (trace w)"
  by (auto simp: attempt_lock_exit_def body_runs_def emit_def db_op_def split: option.splits list.splits prod.splits)

lemma on_exception_attempts:
  "on_exception ids e w = (r, w') \<Longrightarrow> attempts (trace w') \<le> Suc (attempts (trace w))"
  by (auto simp: on_exception_def emit_def attempts_def split: exn.splits if_splits prod.splits option.splits
      dest!: attempt_lock_enter_attempts)

lemma on_exception_body_runs:
  "on_exception ids e w = (r, w') \<Longrightarrow> body_runs (trace w') = body_runs (trace w)"
  by (auto simp: on_exception_def emit_def body_runs_def split: exn.splits if_splits prod.splits option.splits
      dest!: attempt_lock_enter_body_runs)

lemma lock_mptt_enter_cong:
  "normalize_tree_ids a = normalize_tree_ids b \<Longrightarrow> lock_mptt_enter m a w = lock_mptt_enter m b w"
  by (simp add: lock_mptt_enter_def)

lemma lock_mptt_exit_cong:
  "normalize_tree_ids a = normalize_tree_ids b \<Longrightarrow> lock_mptt_exit a = lock_mptt_exit b"
  by (intro ext) (simp add: lock_mptt_exit_def)

lemma lock_mptt_enter_first_try:
  assumes "lock_mptt_enter m a w = (Inr AtTryYield, w')"
  shows "trace w' = trace w @ TxBegin # map LockTree (normalize_tree_ids a)"
proof -
  from assms have "attempt_lock_enter (normalize_tree_ids a) w = (None, w')"
    by (auto simp: lock_mptt_enter_def Let_def split: if_splits prod.splits option.splits sum.splits)
  from attempt_lock_enter_trace[OF this] show ?thesis by auto
qed

lemma lock_mptt_enter_plain:
  "lock_mptt_enter m a w = (Inr AtPlainYield, w') \<Longrightarrow> w' = w"
  by (auto simp: lock_mptt_enter_def Let_def split: if_splits prod.splits option.splits sum.splits)

text \<open>
  Claim C3.  \<^verbatim>\<open>lock_mptt\<close> normalizes the tree ids it is given: the list it locks is
  sorted ascending, has no duplicates and holds exactly the ids that are not None.  Two
  argument lists with the same set of ids that are not None are normalized to the same
  list, so the whole \<^verbatim>\<open>with\<close> statement behaves the same for both.  Every lock
  attempt issues its row-lock statements along the normalized list, stopping at the first
  that fails, and an attempt that succeeds at once has issued all of them, in that order.
\<close>

theorem lock_mptt_lock_order:
  assumes "{t. Some t \<in> set a} = {t. Some t \<in> set b}"
  shows "sorted (normalize_tree_ids a) \<and> distinct (normalize_tree_ids a)
       \<and> set (normalize_tree_ids a) = {t. Some t \<in> set a}
       \<and> normalize_tree_ids a = normalize_tree_ids b
       \<and> with_lock_mptt m a body w = with_lock_mptt m b body w
       \<and> (\<forall>r w'. attempt_lock_enter (normalize_tree_ids a) w = (r, w') \<longrightarrow>
            (\<exists>k \<le> length (normalize_tree_ids a).
               trace w' = trace w @ TxBegin # map LockTree (take k (normalize_tree_ids a))
                            @ (if r = None then [] else [TxRollback])
               \<and> (r = None \<longrightarrow> k = length (normalize_tree_ids a))))
       \<and> (\<forall>w'. lock_mptt_enter m a w = (Inr AtTryYield, w') \<longrightarrow>
            trace w' = trace w @ TxBegin # map LockTree (normalize_tree_ids a))"
proof -
  have eq: "normalize_tree_ids a = normalize_tree_ids b"
    using assms by (rule normalize_cong)
  have w: "with_lock_mptt m a body w = with_lock_mptt m b body w"
    unfolding with_lock_mptt_def lock_mptt_enter_cong[OF eq] lock_mptt_exit_cong[OF eq] by (rule refl)
  show ?thesis
    using eq w normalize_sorted[of a] normalize_distinct[of a] normalize_set[of a]
      attempt_lock_enter_trace[of "normalize_tree_ids a" w] lock_mptt_enter_first_try[of m a w]
    by blast
qed


lemma norm_ex1: "normalize_tree_ids [Some 3, None, Some 1, Some 3] = [1, 3]"
  by (simp add: normalize_tree_ids_def List.map_filter_def)
lemma norm_ex2: "normalize_tree_ids [Some 1, Some 3] = [1, 3]"
  by (simp add: normalize_tree_ids_def List.map_filter_def)

text \<open>The caller passes 3, None, 1, 3; the locks are taken on tree 1, then on tree 3.\<close>

theorem lock_mptt_lock_order_witness:
  "{t. Some t \<in> set [Some 3, None, Some (1::int), Some 3]} = {t. Some t \<in> set [Some 1, Some 3]}
   \<and> normalize_tree_ids [Some 3, None, Some 1, Some 3] = [1, 3]
   \<and> normalize_tree_ids [Some 3, None, Some 1, Some 3] = normalize_tree_ids [Some 1, Some 3]
   \<and> with_lock_mptt \<lparr>mptt_is_tracking = False, mptt_updates_enabled = True\<rparr>
        [Some 3, None, Some 1, Some 3] (raising None) \<lparr>script = [], trace = []\<rparr>
      = with_lock_mptt \<lparr>mptt_is_tracking = False, mptt_updates_enabled = True\<rparr>
        [Some 1, Some 3] (raising None) \<lparr>script = [], trace = []\<rparr>
   \<and> lock_mptt_enter \<lparr>mptt_is_tracking = False, mptt_updates_enabled = True\<rparr>
        [Some 3, None, Some 1, Some 3] \<lparr>script = [], trace = []\<rparr>
      = (Inr AtTryYield, \<lparr>script = [], trace = [TxBegin, LockTree 1, LockTree 3]\<rparr>)"
proof -
  have h: "{t. Some t \<in> set [Some 3, None, Some (1::int), Some 3]} = {t. Some t \<in> set [Some 1, Some 3]}"
    by auto
  have e: "lock_mptt_enter \<lparr>mptt_is_tracking = False, mptt_updates_enabled = True\<rparr>
        [Some 3, None, Some 1, Some 3] \<lparr>script = [], trace = []\<rparr>
      = (Inr AtTryYield, \<lparr>script = [], trace = [TxBegin, LockTree 1, LockTree 3]\<rparr>)"
    by (simp add: lock_mptt_enter_def norm_ex1 attempt_lock_enter_def emit_def db_op_def)
  from lock_mptt_lock_order[OF h, of "\<lparr>mptt_is_tracking = False, mptt_updates_enabled = True\<rparr>"
      "raising None" "\<lparr>script = [], trace = []\<rparr>"]
  show ?thesis using h e norm_ex1 by simp
qed

lemma on_exception_deadlock:
  "is_deadlock e \<Longrightarrow> on_exception ids e w =
     (case attempt_lock_enter ids (emit LogDeadlock w) of
        (Some e2, w') \<Rightarrow> (Inl e2, w') | (None, w') \<Rightarrow> (Inr (), w'))"
  by (auto simp: is_deadlock_def on_exception_def split: exn.splits)

lemma on_exception_other:
  "\<not> is_deadlock e \<Longrightarrow> on_exception ids e w = (Inl e, w)"
  by (auto simp: is_deadlock_def on_exception_def split: exn.splits)

lemma emit_attempts: "ev \<noteq> TxBegin \<Longrightarrow> attempts (trace (emit ev w)) = attempts (trace w)"
  by (simp add: emit_def attempts_def)

lemma emit_body_runs: "body_runs (trace (emit ev w)) = body_runs (trace w) + (if ev = BodyRun then 1 else 0)"
  by (simp add: emit_def body_runs_def)

lemma lock_mptt_enter_attempts:
  "lock_mptt_enter m ids w = (r, w') \<Longrightarrow> attempts (trace w') \<le> attempts (trace w) + 2"
  by (auto simp: lock_mptt_enter_def Let_def split: if_splits prod.splits option.splits sum.splits
      dest!: attempt_lock_enter_attempts on_exception_attempts)

lemma lock_mptt_enter_try_attempts:
  "lock_mptt_enter m ids w = (Inr AtTryYield, w') \<Longrightarrow> attempts (trace w') = attempts (trace w) + 1"
  by (auto simp: lock_mptt_enter_def Let_def split: if_splits prod.splits option.splits sum.splits
      dest!: attempt_lock_enter_attempts on_exception_attempts)

lemma lock_mptt_enter_plain_attempts:
  "lock_mptt_enter m ids w = (Inr AtPlainYield, w') \<Longrightarrow> attempts (trace w') = attempts (trace w)"
  by (auto simp: lock_mptt_enter_def Let_def split: if_splits prod.splits option.splits sum.splits)

lemma lock_mptt_enter_body_runs:
  "lock_mptt_enter m ids w = (r, w') \<Longrightarrow> body_runs (trace w') = body_runs (trace w)"
  by (auto simp: lock_mptt_enter_def Let_def split: if_splits prod.splits option.splits sum.splits
      dest!: attempt_lock_enter_body_runs on_exception_body_runs)

lemma lock_mptt_exit_attempts:
  assumes "lock_mptt_exit ids p exc w = (r, w')"
  shows "attempts (trace w') \<le> attempts (trace w) + (if p = AtTryYield then 1 else 0)"
proof (cases p)
  case AtTryYield
  show ?thesis
  proof (cases "attempt_lock_exit exc w")
    case (Pair r1 w1)
    note a1 = attempt_lock_exit_attempts[OF Pair]
    show ?thesis
    proof (cases r1)
      case None
      with Pair assms AtTryYield a1 show ?thesis by (simp add: lock_mptt_exit_def)
    next
      case (Some e)
      obtain r2 w2 where oe: "on_exception (normalize_tree_ids ids) e w1 = (r2, w2)"
        by (cases "on_exception (normalize_tree_ids ids) e w1")
      note a2 = on_exception_attempts[OF oe]
      from Pair Some oe assms AtTryYield have "w' = w2 \<or> w' = attempt_lock_close w2"
        by (auto simp: lock_mptt_exit_def split: sum.splits)
      then have "attempts (trace w') = attempts (trace w2)"
        by (auto simp: attempt_lock_close_def emit_attempts)
      with a1 a2 AtTryYield show ?thesis by simp
    qed
  qed
next
  case AtRetryYield
  with assms show ?thesis by (auto simp: lock_mptt_exit_def dest: attempt_lock_exit_attempts)
next
  case AtPlainYield
  with assms show ?thesis by (auto simp: lock_mptt_exit_def)
qed

lemma lock_mptt_exit_body_runs:
  assumes "lock_mptt_exit ids p exc w = (r, w')"
  shows "body_runs (trace w') = body_runs (trace w)"
proof (cases p)
  case AtTryYield
  show ?thesis
  proof (cases "attempt_lock_exit exc w")
    case (Pair r1 w1)
    note a1 = attempt_lock_exit_body_runs[OF Pair]
    show ?thesis
    proof (cases r1)
      case None
      with Pair assms AtTryYield a1 show ?thesis by (simp add: lock_mptt_exit_def)
    next
      case (Some e)
      obtain r2 w2 where oe: "on_exception (normalize_tree_ids ids) e w1 = (r2, w2)"
        by (cases "on_exception (normalize_tree_ids ids) e w1")
      note a2 = on_exception_body_runs[OF oe]
      from Pair Some oe assms AtTryYield have "w' = w2 \<or> w' = attempt_lock_close w2"
        by (auto simp: lock_mptt_exit_def split: sum.splits)
      then have "body_runs (trace w') = body_runs (trace w2)"
        by (auto simp: attempt_lock_close_def emit_body_runs)
      with a1 a2 show ?thesis by simp
    qed
  qed
next
  case AtRetryYield
  with assms show ?thesis by (auto simp: lock_mptt_exit_def dest: attempt_lock_exit_body_runs)
next
  case AtPlainYield
  with assms show ?thesis by (auto simp: lock_mptt_exit_def)
qed

lemma with_lock_mptt_attempts:
  "attempts (trace (snd (with_lock_mptt m ids (raising r) w))) \<le> attempts (trace w) + 2"
proof (cases "lock_mptt_enter m ids w")
  case (Pair r1 w1)
  show ?thesis
  proof (cases r1)
    case (Inl e)
    with Pair lock_mptt_enter_attempts[OF Pair] show ?thesis by (simp add: with_lock_mptt_def)
  next
    case (Inr p)
    obtain r2 w2 where ex: "lock_mptt_exit ids p r (emit BodyRun w1) = (r2, w2)"
      by (cases "lock_mptt_exit ids p r (emit BodyRun w1)")
    have res: "with_lock_mptt m ids (raising r) w = (r2, w2)"
      using Pair Inr ex by (simp add: with_lock_mptt_def raising_def)
    note b = lock_mptt_exit_attempts[OF ex]
    show ?thesis
    proof (cases p)
      case AtTryYield
      with Pair Inr have "attempts (trace w1) = attempts (trace w) + 1"
        by (auto dest: lock_mptt_enter_try_attempts)
      with b res AtTryYield show ?thesis by (simp add: emit_attempts)
    next
      case AtRetryYield
      with b res lock_mptt_enter_attempts[OF Pair] show ?thesis by (simp add: emit_attempts)
    next
      case AtPlainYield
      with b res lock_mptt_enter_attempts[OF Pair] show ?thesis by (simp add: emit_attempts)
    qed
  qed
qed

lemma with_lock_mptt_body_runs:
  "body_runs (trace (snd (with_lock_mptt m ids (raising r) w)))
     = body_runs (trace w) + (case fst (lock_mptt_enter m ids w) of Inl e \<Rightarrow> 0 | Inr p \<Rightarrow> 1)"
proof (cases "lock_mptt_enter m ids w")
  case (Pair r1 w1)
  show ?thesis
  proof (cases r1)
    case (Inl e)
    with Pair lock_mptt_enter_body_runs[OF Pair] show ?thesis by (simp add: with_lock_mptt_def)
  next
    case (Inr p)
    obtain r2 w2 where ex: "lock_mptt_exit ids p r (emit BodyRun w1) = (r2, w2)"
      by (cases "lock_mptt_exit ids p r (emit BodyRun w1)")
    have res: "with_lock_mptt m ids (raising r) w = (r2, w2)"
      using Pair Inr ex by (simp add: with_lock_mptt_def raising_def)
    from lock_mptt_exit_body_runs[OF ex] lock_mptt_enter_body_runs[OF Pair] res Pair Inr
    show ?thesis by (simp add: emit_body_runs)
  qed
qed

lemma lock_mptt_exit_try_raise:
  "lock_mptt_exit ids AtTryYield (Some e) w =
     (if is_deadlock e then
        (case attempt_lock_enter (normalize_tree_ids ids) (emit LogDeadlock (emit TxRollback w)) of
           (Some e2, w2) \<Rightarrow> (Some e2, w2)
         | (None, w2) \<Rightarrow> (Some (RuntimeError (didnt_stop (Some e))), emit TxRollback w2))
      else (Some e, emit TxRollback w))"
  by (auto simp: lock_mptt_exit_def attempt_lock_exit_def on_exception_deadlock on_exception_other
      attempt_lock_close_def split: prod.splits option.splits)

text \<open>
  Claim C2.  Let \<^verbatim>\<open>lock_mptt\<close> attempt locking and let the first attempt fail with \<open>e\<close>.
  If \<open>e\<close> is a deadlock, the failure is logged and the lock is attempted once more, in a
  transaction of its own; the outcome of that second attempt is the outcome of entering
  (its failure propagates, there is no third attempt).  If \<open>e\<close> is anything else, it
  propagates at once and nothing more is attempted.  An exception that leaves the
  critical section later is handled alike.  In all, one \<^verbatim>\<open>with\<close> statement makes at most
  two lock attempts.
\<close>

theorem lock_mptt_deadlock_retry:
  assumes "locking m tree_ids"
    and "attempt_lock_enter (normalize_tree_ids tree_ids) w = (Some e, w1)"
  shows "(is_deadlock e \<longrightarrow>
            lock_mptt_enter m tree_ids w =
              (case attempt_lock_enter (normalize_tree_ids tree_ids) (emit LogDeadlock w1) of
                 (Some e2, w2) \<Rightarrow> (Inl e2, w2)
               | (None, w2) \<Rightarrow> (Inr AtRetryYield, w2))
            \<and> attempts (trace (snd (lock_mptt_enter m tree_ids w))) = attempts (trace w) + 2)
       \<and> (\<not> is_deadlock e \<longrightarrow>
            lock_mptt_enter m tree_ids w = (Inl e, w1)
            \<and> attempts (trace w1) = attempts (trace w) + 1)
       \<and> (\<forall>e' w'. lock_mptt_exit tree_ids AtTryYield (Some e') w' =
            (if is_deadlock e' then
               (case attempt_lock_enter (normalize_tree_ids tree_ids)
                       (emit LogDeadlock (emit TxRollback w')) of
                  (Some e2, w2) \<Rightarrow> (Some e2, w2)
                | (None, w2) \<Rightarrow> (Some (RuntimeError (didnt_stop (Some e'))), emit TxRollback w2))
             else (Some e', emit TxRollback w')))
       \<and> (\<forall>r. attempts (trace (snd (with_lock_mptt m tree_ids (raising r) w)))
                 \<le> attempts (trace w) + 2)"
proof -
  let ?ids = "normalize_tree_ids tree_ids"
  have a1: "attempts (trace w1) = attempts (trace w) + 1"
    using attempt_lock_enter_attempts[OF assms(2)] by simp
  have dl: "lock_mptt_enter m tree_ids w =
              (case attempt_lock_enter ?ids (emit LogDeadlock w1) of
                 (Some e2, w2) \<Rightarrow> (Inl e2, w2)
               | (None, w2) \<Rightarrow> (Inr AtRetryYield, w2))
            \<and> attempts (trace (snd (lock_mptt_enter m tree_ids w))) = attempts (trace w) + 2"
    if d: "is_deadlock e"
  proof -
    obtain r2 w2 where second: "attempt_lock_enter ?ids (emit LogDeadlock w1) = (r2, w2)"
      by (cases "attempt_lock_enter ?ids (emit LogDeadlock w1)")
    have a2: "attempts (trace w2) = attempts (trace w) + 2"
      using attempt_lock_enter_attempts[OF second] a1 by (simp add: emit_attempts)
    have eq: "lock_mptt_enter m tree_ids w =
                (case r2 of Some e2 \<Rightarrow> (Inl e2, w2) | None \<Rightarrow> (Inr AtRetryYield, w2))"
      using assms d second
      by (auto simp: lock_mptt_enter_def locking_def on_exception_deadlock split: option.splits)
    show ?thesis using eq second a2 by (auto split: option.splits)
  qed
  have other: "lock_mptt_enter m tree_ids w = (Inl e, w1)" if "\<not> is_deadlock e"
    using assms that by (simp add: lock_mptt_enter_def locking_def on_exception_other)
  show ?thesis
    using dl other a1 lock_mptt_exit_try_raise with_lock_mptt_attempts by blast
qed

text \<open>
  Tree 1 is locked; the first row-lock statement deadlocks, the second attempt succeeds:
  two transactions are opened and the body runs under the second.
\<close>

theorem lock_mptt_deadlock_retry_witness:
  "locking \<lparr>mptt_is_tracking = False, mptt_updates_enabled = True\<rparr> [Some 1]
   \<and> attempt_lock_enter (normalize_tree_ids [Some 1])
        \<lparr>script = [Some (OperationalError ''deadlock detected'')], trace = []\<rparr>
      = (Some (OperationalError ''deadlock detected''),
         \<lparr>script = [], trace = [TxBegin, LockTree 1, TxRollback]\<rparr>)
   \<and> is_deadlock (OperationalError ''deadlock detected'')
   \<and> lock_mptt_enter \<lparr>mptt_is_tracking = False, mptt_updates_enabled = True\<rparr> [Some 1]
        \<lparr>script = [Some (OperationalError ''deadlock detected'')], trace = []\<rparr>
      = (Inr AtRetryYield,
         \<lparr>script = [],
            trace = [TxBegin, LockTree 1, TxRollback, LogDeadlock, TxBegin, LockTree 1]\<rparr>)
   \<and> attempts (trace (snd (lock_mptt_enter \<lparr>mptt_is_tracking = False, mptt_updates_enabled = True\<rparr>
        [Some 1] \<lparr>script = [Some (OperationalError ''deadlock detected'')], trace = []\<rparr>))) = 2"
proof -
  have n: "normalize_tree_ids [Some 1] = [1]"
    by (simp add: normalize_tree_ids_def List.map_filter_def)
  have l: "locking \<lparr>mptt_is_tracking = False, mptt_updates_enabled = True\<rparr> [Some 1]"
    by (simp add: locking_def n)
  have a: "attempt_lock_enter (normalize_tree_ids [Some 1])
        \<lparr>script = [Some (OperationalError ''deadlock detected'')], trace = []\<rparr>
      = (Some (OperationalError ''deadlock detected''),
         \<lparr>script = [], trace = [TxBegin, LockTree 1, TxRollback]\<rparr>)"
    by (simp add: n attempt_lock_enter_def emit_def db_op_def)
  have d: "is_deadlock (OperationalError ''deadlock detected'')"
    by (simp add: is_deadlock_def)
  have b: "attempt_lock_enter [1] (emit LogDeadlock \<lparr>script = [], trace = [TxBegin, LockTree 1, TxRollback]\<rparr>)
     = (None, \<lparr>script = [],
            trace = [TxBegin, LockTree 1, TxRollback, LogDeadlock, TxBegin, LockTree 1]\<rparr>)"
    by (simp add: attempt_lock_enter_def emit_def db_op_def)
  from lock_mptt_deadlock_retry[OF l a] d b n
  show ?thesis using l a by (simp add: attempts_def)
qed

text \<open>
  Claim C10.  The body of a \<^verbatim>\<open>with self.lock_mptt(...)\<close> statement is never run a
  second time.  It runs once when the manager has been entered (after the single retry when
  the first acquisition deadlocked) and not at all when entering raises.  When the body has
  run under the first attempt and raises a deadlock, the manager starts the retry it is
  written for: the deadlock is logged and the locks are taken again in a fresh transaction.
  The generator then yields a second time, which a \<^verbatim>\<open>with\<close> statement cannot resume:
  the retry ends there, the body is not run again, and the statement raises RuntimeError in
  place of the deadlock (or the failure of the second acquisition).
\<close>

theorem lock_mptt_body_runs_at_most_once:
  "body_runs (trace (snd (with_lock_mptt m tree_ids (raising r) w)))
     = body_runs (trace w) + (case fst (lock_mptt_enter m tree_ids w) of Inl e \<Rightarrow> 0 | Inr p \<Rightarrow> 1)
   \<and> body_runs (trace (snd (with_lock_mptt m tree_ids (raising r) w))) \<le> body_runs (trace w) + 1
   \<and> (\<forall>w1 e. lock_mptt_enter m tree_ids w = (Inr AtTryYield, w1) \<longrightarrow> is_deadlock e \<longrightarrow>
         with_lock_mptt m tree_ids (raising (Some e)) w =
           (case attempt_lock_enter (normalize_tree_ids tree_ids)
                   (emit LogDeadlock (emit TxRollback (emit BodyRun w1))) of
              (Some e2, w2) \<Rightarrow> (Some e2, w2)
            | (None, w2) \<Rightarrow> (Some (RuntimeError (didnt_stop (Some e))), emit TxRollback w2)))"
proof -
  have c: "body_runs (trace (snd (with_lock_mptt m tree_ids (raising r) w)))
     = body_runs (trace w) + (case fst (lock_mptt_enter m tree_ids w) of Inl e \<Rightarrow> 0 | Inr p \<Rightarrow> 1)"
    by (rule with_lock_mptt_body_runs)
  have le: "body_runs (trace (snd (with_lock_mptt m tree_ids (raising r) w))) \<le> body_runs (trace w) + 1"
    unfolding c by (simp split: sum.splits)
  have d: "with_lock_mptt m tree_ids (raising (Some e)) w =
           (case attempt_lock_enter (normalize_tree_ids tree_ids)
                   (emit LogDeadlock (emit TxRollback (emit BodyRun w1))) of
              (Some e2, w2) \<Rightarrow> (Some e2, w2)
            | (None, w2) \<Rightarrow> (Some (RuntimeError (didnt_stop (Some e))), emit TxRollback w2))"
    if "lock_mptt_enter m tree_ids w = (Inr AtTryYield, w1)" "is_deadlock e" for w1 e
    using that by (simp add: with_lock_mptt_def raising_def lock_mptt_exit_try_raise)
  show ?thesis using c le d by blast
qed

theorem lock_mptt_body_runs_at_most_once_witness:
  "lock_mptt_enter \<lparr>mptt_is_tracking = False, mptt_updates_enabled = True\<rparr> [Some 1]
       \<lparr>script = [], trace = []\<rparr>
     = (Inr AtTryYield, \<lparr>script = [], trace = [TxBegin, LockTree 1]\<rparr>)
   \<and> is_deadlock (OperationalError ''deadlock detected'')
   \<and> with_lock_mptt \<lparr>mptt_is_tracking = False, mptt_updates_enabled = True\<rparr> [Some 1]
        (raising (Some (OperationalError ''deadlock detected''))) \<lparr>script = [], trace = []\<rparr>
      = (Some (RuntimeError (didnt_stop (Some (OperationalError ''deadlock detected'')))),
         \<lparr>script = [],
            trace = [TxBegin, LockTree 1, BodyRun, TxRollback, LogDeadlock, TxBegin, LockTree 1,
                     TxRollback]\<rparr>)"
proof -
  have n: "normalize_tree_ids [Some 1] = [1]"
    by (simp add: normalize_tree_ids_def List.map_filter_def)
  have e: "lock_mptt_enter \<lparr>mptt_is_tracking = False, mptt_updates_enabled = True\<rparr> [Some 1]
       \<lparr>script = [], trace = []\<rparr>
     = (Inr AtTryYield, \<lparr>script = [], trace = [TxBegin, LockTree 1]\<rparr>)"
    by (simp add: lock_mptt_enter_def n attempt_lock_enter_def emit_def db_op_def)
  have d: "is_deadlock (OperationalError ''deadlock detected'')"
    by (simp add: is_deadlock_def)
  have b: "attempt_lock_enter [1]
      (emit LogDeadlock (emit TxRollback (emit BodyRun \<lparr>script = [], trace = [TxBegin, LockTree 1]\<rparr>)))
     = (None, \<lparr>script = [],
            trace = [TxBegin, LockTree 1, BodyRun, TxRollback, LogDeadlock, TxBegin, LockTree 1]\<rparr>)"
    by (simp add: attempt_lock_enter_def emit_def db_op_def)
  from lock_mptt_body_runs_at_most_once[of "\<lparr>mptt_is_tracking = False, mptt_updates_enabled = True\<rparr>"
      "[Some 1]" None "\<lparr>script = [], trace = []\<rparr>"] e d b n
  show ?thesis by (simp add: emit_def)
qed

text \<open>
  The failing input: the body raises a deadlock under a lock on tree 1.  The retry is
  logged and the lock is taken again, but the trace holds one run of the body, and the
  statement ends in RuntimeError.
\<close>

theorem lock_mptt_body_rerun_counterexample:
  "with_lock_mptt \<lparr>mptt_is_tracking = False, mptt_updates_enabled = True\<rparr> [Some 1]
        (raising (Some (OperationalError ''deadlock detected''))) \<lparr>script = [], trace = []\<rparr>
      = (Some (RuntimeError (''generator didn'' @ [CHR 0x27] @ ''t stop after throw()'')),
         \<lparr>script = [],
            trace = [TxBegin, LockTree 1, BodyRun, TxRollback, LogDeadlock, TxBegin, LockTree 1,
                     TxRollback]\<rparr>)
   \<and> body_runs (trace (snd (with_lock_mptt \<lparr>mptt_is_tracking = False, mptt_updates_enabled = True\<rparr>
        [Some 1] (raising (Some (OperationalError ''deadlock detected'')))
        \<lparr>script = [], trace = []\<rparr>))) = 1"
  by (simp add: with_lock_mptt_def lock_mptt_enter_def lock_mptt_exit_def normalize_tree_ids_def
      List.map_filter_def attempt_lock_enter_def attempt_lock_exit_def attempt_lock_close_def
      on_exception_def raising_def didnt_stop_def emit_def db_op_def body_runs_def)

text \<open>
  Claim C8.  \<^verbatim>\<open>move_node\<close> with no target does not turn the node into a root: reading
  \<^verbatim>\<open>target.tree_id\<close> raises AttributeError before any lock is taken and before the node
  is touched; the world is left as it was.
\<close>

theorem move_node_without_target:
  "move_node m node None position w = (Some (AttributeError ''tree_id''), w)"
  by (simp add: move_node_def)

lemma ensure_original_lookup:
  "ensure_original g s c k =
     (if k = ''original_channel_id'' \<and> c k = Some PNone
      then Some (opt_val (origin_channel_id (g s)))
      else if k = ''original_source_node_id'' \<and> c k = Some PNone
      then Some (PStr (origin_node_id (g s)))
      else c k)"
  by (auto simp: ensure_original_def Let_def)

lemma clone_node_with_mods:
  "\<exists>c1. fst (clone_node gen g source parent sc can_edit pk_arg (Some d) n)
          = ensure_original g source (c1 ++ d)"
  by (auto simp: clone_node_def Let_def split: prod.splits)

text \<open>
  Claim C9, as the code has it.  A key of the overrides dict carries the override's value
  in the returned clone, whatever the defaults and the copied source attributes are,
  except for an override of \<^verbatim>\<open>original_channel_id\<close> or
  \<^verbatim>\<open>original_source_node_id\<close> by None: the fix-up for legacy nodes runs after
  the overrides and fills these two in from the original node.
\<close>

theorem clone_node_overrides:
  assumes "mods = Some d" and "d k = Some v"
  shows "(\<not> (v = PNone \<and> (k = ''original_channel_id'' \<or> k = ''original_source_node_id'')) \<longrightarrow>
            fst (clone_node gen get_original source parent source_channel_id can_edit pk_arg mods n) k
              = Some v)
       \<and> (v = PNone \<and> k = ''original_channel_id'' \<longrightarrow>
            fst (clone_node gen get_original source parent source_channel_id can_edit pk_arg mods n) k
              = Some (opt_val (origin_channel_id (get_original source))))
       \<and> (v = PNone \<and> k = ''original_source_node_id'' \<longrightarrow>
            fst (clone_node gen get_original source parent source_channel_id can_edit pk_arg mods n) k
              = Some (PStr (origin_node_id (get_original source))))"
proof -
  from clone_node_with_mods obtain c1 where
    r: "fst (clone_node gen get_original source parent source_channel_id can_edit pk_arg (Some d) n)
          = ensure_original get_original source (c1 ++ d)" by blast
  have l: "(c1 ++ d) k = Some v" using assms(2) by (simp add: map_add_def)
  show ?thesis
    unfolding assms(1) r ensure_original_lookup l by auto
qed

text \<open>The title is overridden: the clone carries the override and not the source's title.\<close>

theorem clone_node_overrides_witness:
  "[''title'' \<mapsto> PStr ''T''] ''title'' = Some (PStr ''T'')
   \<and> title (video ''a'' 2) = PStr ''a''
   \<and> fst (clone_node uuid_of origin_of (video ''a'' 2) PNone (PStr ''ch1'') (Some True) None
            (Some [''title'' \<mapsto> PStr ''T'']) 0) ''title'' = Some (PStr ''T'')"
  using clone_node_overrides[of "Some [''title'' \<mapsto> PStr ''T'']" "[''title'' \<mapsto> PStr ''T'']"
      "''title''" "PStr ''T''" uuid_of origin_of "video ''a'' 2" PNone "PStr ''ch1''" "Some True" None 0]
  by (simp add: video_def)

text \<open>
  The claim says that every key of the overrides carries the override's value.  Here the
  override sets \<^verbatim>\<open>original_source_node_id\<close> to None, and the clone carries the
  original node's \<^verbatim>\<open>node_id\<close> instead.
\<close>

theorem clone_node_override_counterexample:
  "[''original_source_node_id'' \<mapsto> PNone] ''original_source_node_id'' = Some PNone
   \<and> fst (clone_node uuid_of origin_of (video ''a'' 2) PNone (PStr ''ch1'') (Some True) None
            (Some [''original_source_node_id'' \<mapsto> PNone]) 0) ''original_source_node_id''
       = Some (PStr ''n-orig'')"
  by (simp add: clone_node_def ensure_original_def clone_defaults_def get_source_attributes_def
      origin_of_def Let_def)

lemma remap_files_ok:
  "remap_files m fs = Inr fs' \<Longrightarrow> f \<in> set fs \<Longrightarrow>
     \<exists>c c'. file_contentnode_id f = Some c \<and> m c = Some c'"
  by (induction fs arbitrary: fs') (auto split: option.splits sum.splits)

lemma remap_items_ok:
  "remap_items m items lookup = Inr r \<Longrightarrow> i \<in> set items \<Longrightarrow>
     \<exists>c'. m (item_contentnode_id i) = Some c'"
  by (induction items arbitrary: lookup r) (auto simp: Let_def split: option.splits sum.splits)

lemma lay_treeify:
  "preorder (fst (lay tid t c l)) = fst (treeify tid t c l) \<and> snd (lay tid t c l) = snd (treeify tid t c l)
     \<and> erase (fst (lay tid t c l)) = t"
  "concat (map preorder (fst (lay_children tid ts c l))) = fst (treeify_children tid ts c l)
     \<and> snd (lay_children tid ts c l) = snd (treeify_children tid ts c l)
     \<and> map erase (fst (lay_children tid ts c l)) = ts"
  by (induction tid t c l and tid ts c l rule: lay_lay_children.induct)
     (auto split: prod.splits)

lemma lay_invariants:
  "lay tid t c l = (k, c') \<Longrightarrow>
     mptt_lft (lroot k) = c \<and> mptt_rght (lroot k) = c' \<and> mptt_level (lroot k) = l
     \<and> mptt_tree_id (lroot k) = tid \<and> c < c' \<and> odd (c' - c) \<and> nested_ok k"
  "lay_children tid ts c l = (ks, c') \<Longrightarrow>
     c \<le> c' \<and> even (c' - c) \<and> (ts = [] \<longrightarrow> c' = c) \<and> (ks = [] \<longleftrightarrow> ts = [])
     \<and> (\<forall>k \<in> set ks. mptt_level (lroot k) = l \<and> mptt_tree_id (lroot k) = tid
            \<and> c < mptt_lft (lroot k) \<and> mptt_rght (lroot k) \<le> c' \<and> nested_ok k)
     \<and> sorted_wrt (\<lambda>a b. mptt_rght (lroot a) < mptt_lft (lroot b)) ks"
proof (induction tid t c l and tid ts c l arbitrary: k c' and ks c' rule: lay_lay_children.induct)
  case (1 tid data children cursor lvl)
  obtain ks0 c0 where ch: "lay_children tid children cursor (lvl + 1) = (ks0, c0)"
    by (cases "lay_children tid children cursor (lvl + 1)")
  note ih = "1.IH"[OF ch]
  from "1.prems" ch have k: "k = LT \<lparr>payload = data, mptt_tree_id = tid, mptt_level = lvl,
      mptt_lft = cursor, mptt_rght = c0 + 1\<rparr> ks0" and c': "c' = c0 + 1" by auto
  from ih have "cursor \<le> c0" "even (c0 - cursor)" by simp_all
  then have "cursor < c'" "odd (c' - cursor)" using c' by simp_all
  moreover have "nested_ok k"
    unfolding k using ih by (force simp: )
  ultimately show ?case using k c' by simp
next
  case (2 tid cursor lvl)
  then show ?case by simp
next
  case (3 tid child rest cursor lvl)
  obtain k1 c1 where a: "lay tid child (cursor + 1) lvl = (k1, c1)"
    by (cases "lay tid child (cursor + 1) lvl")
  obtain ks2 c2 where b: "lay_children tid rest c1 lvl = (ks2, c2)"
    by (cases "lay_children tid rest c1 lvl")
  note ih1 = "3.IH"(1)[OF a]
  note ih2 = "3.IH"(2)[OF a[symmetric] b]
  from "3.prems" a b have ks: "ks = k1 # ks2" and c': "c' = c2" by auto
  have s: "\<forall>k \<in> set ks2. mptt_rght (lroot k1) < mptt_lft (lroot k)"
    using ih1 ih2 by auto
  have ev: "even (c' - cursor)"
  proof -
    have "c' - cursor = (c2 - c1) + (c1 - (cursor + 1)) + 1" by (simp add: c')
    moreover have "even (c2 - c1)" using ih2 by simp
    moreover have "odd (c1 - (cursor + 1))" using ih1 by simp
    ultimately show ?thesis by simp
  qed
  show ?case
    unfolding ks c' using ih1 ih2 s ev[unfolded c'] by auto
qed

lemma nested_span:
  "nested_ok lt \<Longrightarrow> n \<in> set (preorder lt) \<Longrightarrow>
     mptt_lft (lroot lt) \<le> mptt_lft n \<and> mptt_rght n \<le> mptt_rght (lroot lt)"
proof (induction lt arbitrary: n)
  case (LT r ks)
  show ?case
  proof (cases "n = r")
    case True
    then show ?thesis by simp
  next
    case False
    with LT.prems(2) obtain k where k: "k \<in> set ks" "n \<in> set (preorder k)" by auto
    from LT.prems(1) k(1) have ok: "nested_ok k"
      and b: "mptt_lft r < mptt_lft (lroot k)" "mptt_rght (lroot k) < mptt_rght r" by auto
    from LT.IH[OF k(1) ok k(2)] b show ?thesis by simp
  qed
qed

lemma sorted_wrt_two:
  "sorted_wrt P xs \<Longrightarrow> a \<in> set xs \<Longrightarrow> b \<in> set xs \<Longrightarrow> a = b \<or> P a b \<or> P b a"
  by (induction xs) auto

lemma nested_laminar: "nested_ok lt \<Longrightarrow> laminar (preorder lt)"
proof (induction lt)
  case (LT r ks)
  have pair: "a = b \<or> inside a b \<or> inside b a \<or> apart a b"
    if a: "a \<in> set (preorder (LT r ks))" and b: "b \<in> set (preorder (LT r ks))" for a b
  proof -
    have below: "inside x r" if "k \<in> set ks" "x \<in> set (preorder k)" for k x
    proof -
      from LT.prems that(1) have ok: "nested_ok k"
        and bd: "mptt_lft r < mptt_lft (lroot k)" "mptt_rght (lroot k) < mptt_rght r" by auto
      from nested_span[OF ok that(2)] bd show ?thesis by (simp add: inside_def)
    qed
    show ?thesis
    proof (cases "a = r \<or> b = r")
      case True
      then show ?thesis using a b below by auto
    next
      case False
      with a b obtain ka kb where ka: "ka \<in> set ks" "a \<in> set (preorder ka)"
        and kb: "kb \<in> set ks" "b \<in> set (preorder kb)" by auto
      from LT.prems ka(1) kb(1) have oka: "nested_ok ka" and okb: "nested_ok kb" by auto
      from LT.prems have srt: "sorted_wrt (\<lambda>x y. mptt_rght (lroot x) < mptt_lft (lroot y)) ks"
        by simp
      from sorted_wrt_two[OF srt ka(1) kb(1)]
      consider "ka = kb" | "mptt_rght (lroot ka) < mptt_lft (lroot kb)"
        | "mptt_rght (lroot kb) < mptt_lft (lroot ka)" by blast
      then show ?thesis
      proof cases
        case 1
        with LT.IH[OF ka(1) oka] ka(2) kb(2) show ?thesis by (auto simp: laminar_def)
      next
        case 2
        with nested_span[OF oka ka(2)] nested_span[OF okb kb(2)] show ?thesis
          by (simp add: apart_def)
      next
        case 3
        with nested_span[OF oka ka(2)] nested_span[OF okb kb(2)] show ?thesis
          by (simp add: apart_def)
      qed
    qed
  qed
  then show ?case unfolding laminar_def by blast
qed

text \<open>
  Claim C5.  The stack \<^verbatim>\<open>build_tree_nodes\<close> returns is the pre-order listing of a tree
  of nodes of the shape of the data, each node carrying the fields of its dictionary.  In
  that tree every node's span (right minus left) is positive and odd, a leaf's is one, every
  child is one level below its parent, in the same tree and strictly inside its parent's
  interval, and siblings follow each other without touching; so no two intervals of the stack
  overlap partially.  The root starts where \<^verbatim>\<open>build_tree_nodes\<close> puts the cursor; with
  no target that is left 1 at level 0 in a tree of its own.
\<close>

theorem build_tree_nodes_nested_set:
  "\<exists>lt. erase lt = data
        \<and> preorder lt = fst (build_tree_nodes next_tree_id data target position)
        \<and> nested_ok lt
        \<and> laminar (fst (build_tree_nodes next_tree_id data target position))
        \<and> (mptt_tree_id (lroot lt), mptt_lft (lroot lt), mptt_level (lroot lt))
            = start_of next_tree_id target position
        \<and> start_of next_tree_id None position = (next_tree_id, 1, 0)"
proof -
  obtain tid c l where st: "start_of next_tree_id target position = (tid, c, l)"
    by (cases "start_of next_tree_id target position")
  obtain lt c' where la: "lay tid data c l = (lt, c')"
    by (cases "lay tid data c l")
  have b: "fst (build_tree_nodes next_tree_id data target position) = fst (treeify tid data c l)"
    by (simp add: build_tree_nodes_def st Let_def)
  have p: "preorder lt = fst (treeify tid data c l)" and e: "erase lt = data"
    using lay_treeify(1)[of tid data c l] la by simp_all
  note inv = lay_invariants(1)[OF la]
  have "laminar (preorder lt)" using inv by (simp add: nested_laminar)
  with e p b inv st show ?thesis
    by (intro exI[of _ lt]) (simp add: start_of_def)
qed

text \<open>A root with a child that has two leaves, and a second child, laid out as a new tree 7.\<close>

theorem build_tree_nodes_nested_set_witness:
  "fst (build_tree_nodes 7
          (CT Map.empty [CT Map.empty [CT Map.empty [], CT Map.empty []], CT Map.empty []])
          None ''last-child'')
     = [\<lparr>payload = Map.empty, mptt_tree_id = 7, mptt_level = 0, mptt_lft = 1, mptt_rght = 10\<rparr>,
        \<lparr>payload = Map.empty, mptt_tree_id = 7, mptt_level = 1, mptt_lft = 2, mptt_rght = 7\<rparr>,
        \<lparr>payload = Map.empty, mptt_tree_id = 7, mptt_level = 2, mptt_lft = 3, mptt_rght = 4\<rparr>,
        \<lparr>payload = Map.empty, mptt_tree_id = 7, mptt_level = 2, mptt_lft = 5, mptt_rght = 6\<rparr>,
        \<lparr>payload = Map.empty, mptt_tree_id = 7, mptt_level = 1, mptt_lft = 8, mptt_rght = 9\<rparr>]
   \<and> laminar (fst (build_tree_nodes 7
          (CT Map.empty [CT Map.empty [CT Map.empty [], CT Map.empty []], CT Map.empty []])
          None ''last-child''))"
proof -
  have v: "fst (build_tree_nodes 7
          (CT Map.empty [CT Map.empty [CT Map.empty [], CT Map.empty []], CT Map.empty []])
          None ''last-child'')
     = [\<lparr>payload = Map.empty, mptt_tree_id = 7, mptt_level = 0, mptt_lft = 1, mptt_rght = 10\<rparr>,
        \<lparr>payload = Map.empty, mptt_tree_id = 7, mptt_level = 1, mptt_lft = 2, mptt_rght = 7\<rparr>,
        \<lparr>payload = Map.empty, mptt_tree_id = 7, mptt_level = 2, mptt_lft = 3, mptt_rght = 4\<rparr>,
        \<lparr>payload = Map.empty, mptt_tree_id = 7, mptt_level = 2, mptt_lft = 5, mptt_rght = 6\<rparr>,
        \<lparr>payload = Map.empty, mptt_tree_id = 7, mptt_level = 1, mptt_lft = 8, mptt_rght = 9\<rparr>]"
    by (simp add: build_tree_nodes_def start_of_def)
  from build_tree_nodes_nested_set[of
      "CT Map.empty [CT Map.empty [CT Map.empty [], CT Map.empty []], CT Map.empty []]"
      7 None "''last-child''"]
  have "laminar (fst (build_tree_nodes 7
          (CT Map.empty [CT Map.empty [CT Map.empty [], CT Map.empty []], CT Map.empty []])
          None ''last-child''))" by blast
  with v show ?thesis by simp
qed
































lemma create_space_length [simp]: "length (create_space a b c t) = length t"
  by (simp add: create_space_def)

lemma mark_changed_length [simp]: "length (mark_changed v t) = length t"
  by (simp add: mark_changed_def)


















lemma tree_r_node_ids:
  "map (\<lambda>n. node_id (row n)) (flatten tree_r)
     = [''n-r'', ''n-a'', ''n-a1'', ''n-a2'', ''n-a3'', ''n-b'']"
  by (simp add: tree_r_def tree_a_def leaf_def topic_def video_def)











lemma remap_files_error: "remap_files m fs = Inl e \<Longrightarrow> \<exists>k. e = KeyError k"
  by (induction fs) (auto split: option.splits sum.splits)

lemma remap_items_error: "remap_items m items lookup = Inl e \<Longrightarrow> \<exists>k. e = KeyError k"
  by (induction items arbitrary: lookup) (auto simp: Let_def split: option.splits sum.splits)

lemma remap_files_all:
  "remap_files m fs = Inr fs' \<Longrightarrow>
     list_all2 (\<lambda>x y. \<exists>c c'. file_contentnode_id x = Some c \<and> m c = Some c'
                        \<and> y = x\<lparr>file_id := None, file_contentnode_id := Some c'\<rparr>) fs fs'"
  by (induction fs arbitrary: fs') (auto split: option.splits sum.splits)

lemma remap_items_all:
  "remap_items m items lookup = Inr (items', lookup') \<Longrightarrow>
     list_all2 (\<lambda>x y. \<exists>c'. m (item_contentnode_id x) = Some c'
                        \<and> y = x\<lparr>item_id := None, item_contentnode_id := c'\<rparr>) items items'"
  by (induction items arbitrary: lookup items' lookup')
     (auto simp: Let_def split: option.splits sum.splits)

lemma bulk_create_items_all:
  "list_all2 (\<lambda>x y. item_contentnode_id y = item_contentnode_id x \<and> assessment_id y = assessment_id x)
     items (bulk_create_items assign k items)"
  by (induction items arbitrary: k) auto

lemma copy_tags_written:
  assumes "copy_tags gen tags taggings m contentnode contentnode_in = Inr (made, written)"
    and "parse_filter_kwargs contentnode contentnode_in = Inr sel"
  shows "list_all2 (\<lambda>x y. \<exists>c c'. tagging_contentnode_id x = Some c \<and> m c = Some c'
                        \<and> tagging_contentnode_id y = Some c')
           (filter (\<lambda>x. selects sel (tagging_contentnode_id x)) taggings) written"
proof -
  let ?sel = "filter (\<lambda>x. selects sel (tagging_contentnode_id x)) taggings"
  let ?copy = "concat (map (\<lambda>m. filter (\<lambda>t. tag_id t = contenttag_id m \<and> tag_channel t \<noteq> None) tags)
                           ?sel)"
  obtain made' tm where mt: "map_tags gen
      (map_of (rev (map (\<lambda>t. (tag_name t, tag_id t))
                   (filter (\<lambda>t. tag_name t \<in> tag_name ` set ?copy \<and> tag_channel t = None) tags))))
      ?copy 0 Map.empty = (made', tm)"
    by (cases "map_tags gen
      (map_of (rev (map (\<lambda>t. (tag_name t, tag_id t))
                   (filter (\<lambda>t. tag_name t \<in> tag_name ` set ?copy \<and> tag_channel t = None) tags))))
      ?copy 0 Map.empty") auto
  define g where "g = (\<lambda>x :: tagging. \<lparr>contenttag_id =
                               (case tm (contenttag_id x) of
                                  Some t \<Rightarrow> t | None \<Rightarrow> contenttag_id x),
                            tagging_contentnode_id =
                               (case tagging_contentnode_id x of
                                  None \<Rightarrow> None | Some c \<Rightarrow> m c)\<rparr>)"
  from assms mt have bc: "bulk_create_taggings (map g ?sel) = Inr written"
    by (simp add: copy_tags_def Let_def g_def split: sum.splits)
  then have w: "written = map g ?sel" and nn: "None \<notin> set (map tagging_contentnode_id (map g ?sel))"
    by (auto simp: bulk_create_taggings_def split: if_splits)
  have "\<exists>c c'. tagging_contentnode_id x = Some c \<and> m c = Some c'
                        \<and> tagging_contentnode_id (g x) = Some c'" if "x \<in> set ?sel" for x
  proof -
    from that have "selects sel (tagging_contentnode_id x)" by simp
    then obtain c where c: "tagging_contentnode_id x = Some c"
      by (cases "tagging_contentnode_id x") auto
    from nn that have "tagging_contentnode_id (g x) \<noteq> None" by force
    with c show ?thesis by (auto simp: g_def)
  qed
  then show ?thesis unfolding w by (simp add: list_all2_map2 list_all2_same)
qed

lemma copy_tags_refused:
  assumes "parse_filter_kwargs contentnode contentnode_in = Inr sel"
    and "t \<in> set taggings" and "tagging_contentnode_id t = Some c" and "selects sel (Some c)"
    and "m c = None"
  shows "\<exists>msg. copy_tags gen tags taggings m contentnode contentnode_in = Inl (IntegrityError msg)"
proof -
  let ?sel = "filter (\<lambda>x. selects sel (tagging_contentnode_id x)) taggings"
  from assms have "t \<in> set ?sel" by simp
  then have "None \<in> (\<lambda>x. case tagging_contentnode_id x of None \<Rightarrow> None | Some c \<Rightarrow> m c) ` set ?sel"
    using assms(3,5) by force
  with assms(1) show ?thesis
    by (simp add: copy_tags_def Let_def bulk_create_taggings_def image_image comp_def
        split: prod.splits)
qed

lemma copy_files_refused:
  assumes "parse_filter_kwargs contentnode contentnode_in = Inr sel"
    and "x \<in> set files" and "file_contentnode_id x = Some c" and "selects sel (Some c)"
    and "m c = None"
  shows "\<exists>k. copy_files files m contentnode contentnode_in = Inl (KeyError k)"
proof (cases "copy_files files m contentnode contentnode_in")
  case (Inl e)
  with assms(1) remap_files_error show ?thesis by (fastforce simp: copy_files_def)
next
  case (Inr fs)
  with assms(1) have "remap_files m (filter (\<lambda>x. selects sel (file_contentnode_id x)) files) = Inr fs"
    by (simp add: copy_files_def)
  from remap_files_ok[OF this, of x] assms show ?thesis by auto
qed

lemma copy_items_refused:
  assumes "parse_filter_kwargs contentnode contentnode_in = Inr sel"
    and "i \<in> set items" and "selects sel (Some (item_contentnode_id i))"
    and "m (item_contentnode_id i) = None"
  shows "\<exists>k. copy_assessment_items assign items files m contentnode contentnode_in = Inl (KeyError k)"
proof (cases "remap_items m (filter (\<lambda>i. selects sel (Some (item_contentnode_id i))) items) Map.empty")
  case (Inl e)
  with assms(1) remap_items_error[OF Inl] show ?thesis
    by (auto simp: copy_assessment_items_def Let_def)
next
  case (Inr r)
  from remap_items_ok[OF this, of i] assms show ?thesis by auto
qed

lemma copy_files_written:
  assumes "copy_files files m contentnode contentnode_in = Inr written"
    and "parse_filter_kwargs contentnode contentnode_in = Inr sel"
  shows "list_all2 (\<lambda>x y. \<exists>c c'. file_contentnode_id x = Some c \<and> m c = Some c'
                        \<and> y = x\<lparr>file_id := None, file_contentnode_id := Some c'\<rparr>)
           (filter (\<lambda>x. selects sel (file_contentnode_id x)) files) written"
proof -
  from assms have r: "remap_files m (filter (\<lambda>x. selects sel (file_contentnode_id x)) files) = Inr written"
    by (simp add: copy_files_def)
  show ?thesis by (rule remap_files_all[OF r])
qed

lemma copy_items_written:
  assumes "copy_assessment_items assign items files m contentnode contentnode_in = Inr (made, fs)"
    and "parse_filter_kwargs contentnode contentnode_in = Inr sel"
  shows "list_all2 (\<lambda>x y. \<exists>c'. m (item_contentnode_id x) = Some c'
                        \<and> item_contentnode_id y = c' \<and> assessment_id y = assessment_id x)
           (filter (\<lambda>i. selects sel (Some (item_contentnode_id i))) items) made"
proof -
  let ?sel = "filter (\<lambda>i. selects sel (Some (item_contentnode_id i))) items"
  from assms obtain remapped lookup where r: "remap_items m ?sel Map.empty = Inr (remapped, lookup)"
    and mk: "made = bulk_create_items assign 0 remapped"
    by (auto simp: copy_assessment_items_def Let_def split: sum.splits prod.splits)
  have a: "list_all2 (\<lambda>x y. \<exists>c'. m (item_contentnode_id x) = Some c'
                        \<and> y = x\<lparr>item_id := None, item_contentnode_id := c'\<rparr>) ?sel remapped"
    by (rule remap_items_all[OF r])
  have b: "list_all2 (\<lambda>x y. item_contentnode_id y = item_contentnode_id x \<and> assessment_id y = assessment_id x)
     remapped made" unfolding mk by (rule bulk_create_items_all)
  show ?thesis
    by (rule list_all2_mono[OF list_all2_trans[OF _ a b,
          of "\<lambda>x y. \<exists>c'. m (item_contentnode_id x) = Some c'
                        \<and> item_contentnode_id y = c' \<and> assessment_id y = assessment_id x"]]) auto
qed

text \<open>
  Claim C7.  Copying the files, the assessment items or the tags of the selected nodes
  raises when one of the records to copy belongs to a node that the map from old to new
  node ids lacks: \<^verbatim>\<open>_copy_files\<close> and \<^verbatim>\<open>_copy_assessment_items\<close> raise KeyError at
  the lookup, \<^verbatim>\<open>_copy_tags\<close> builds the row with a node of None and the database
  refuses it, which raises IntegrityError.  A copy that returns has written one record for
  every selected record, none skipped, each with the new id the map gives for its node.
\<close>

theorem missing_node_id_is_fatal:
  assumes "parse_filter_kwargs contentnode contentnode_in = Inr sel"
  shows "(selects sel (Some c) \<and> m c = None \<longrightarrow>
            ((\<exists>x \<in> set files. file_contentnode_id x = Some c) \<longrightarrow>
               (\<exists>k. copy_files files m contentnode contentnode_in = Inl (KeyError k)))
          \<and> ((\<exists>i \<in> set items. item_contentnode_id i = c) \<longrightarrow>
               (\<exists>k. copy_assessment_items assign items files m contentnode contentnode_in
                      = Inl (KeyError k)))
          \<and> ((\<exists>t \<in> set taggings. tagging_contentnode_id t = Some c) \<longrightarrow>
               (\<exists>msg. copy_tags gen tags taggings m contentnode contentnode_in
                        = Inl (IntegrityError msg))))
       \<and> (\<forall>written. copy_files files m contentnode contentnode_in = Inr written \<longrightarrow>
            list_all2 (\<lambda>x y. \<exists>c c'. file_contentnode_id x = Some c \<and> m c = Some c'
                          \<and> y = x\<lparr>file_id := None, file_contentnode_id := Some c'\<rparr>)
              (filter (\<lambda>x. selects sel (file_contentnode_id x)) files) written)
       \<and> (\<forall>made fs. copy_assessment_items assign items files m contentnode contentnode_in
                       = Inr (made, fs) \<longrightarrow>
            list_all2 (\<lambda>x y. \<exists>c'. m (item_contentnode_id x) = Some c'
                          \<and> item_contentnode_id y = c' \<and> assessment_id y = assessment_id x)
              (filter (\<lambda>i. selects sel (Some (item_contentnode_id i))) items) made)
       \<and> (\<forall>made written. copy_tags gen tags taggings m contentnode contentnode_in
                            = Inr (made, written) \<longrightarrow>
            list_all2 (\<lambda>x y. \<exists>c c'. tagging_contentnode_id x = Some c \<and> m c = Some c'
                          \<and> tagging_contentnode_id y = Some c')
              (filter (\<lambda>x. selects sel (tagging_contentnode_id x)) taggings) written)"
proof -
  have a: "\<exists>k. copy_files files m contentnode contentnode_in = Inl (KeyError k)"
    if "selects sel (Some c)" "m c = None" "\<exists>x \<in> set files. file_contentnode_id x = Some c"
    using that copy_files_refused[OF assms] by blast
  have b: "\<exists>k. copy_assessment_items assign items files m contentnode contentnode_in = Inl (KeyError k)"
    if "selects sel (Some c)" "m c = None" "\<exists>i \<in> set items. item_contentnode_id i = c"
    using that copy_items_refused[OF assms] by blast
  have d: "\<exists>msg. copy_tags gen tags taggings m contentnode contentnode_in = Inl (IntegrityError msg)"
    if "selects sel (Some c)" "m c = None" "\<exists>t \<in> set taggings. tagging_contentnode_id t = Some c"
    using that copy_tags_refused[OF assms] by blast
  show ?thesis
    using a b d copy_files_written[OF _ assms] copy_items_written[OF _ assms]
      copy_tags_written[OF _ assms]
    by blast
qed

text \<open>
  The node \<open>n1\<close> has a file, an assessment item and a tag.  With an empty map each of the
  three copies raises; with a map that sends \<open>n1\<close> to \<open>c1\<close> each writes its record for
  \<open>c1\<close>.
\<close>

theorem missing_node_id_is_fatal_witness:
  "parse_filter_kwargs (Some ''n1'') None = Inr (ByNode ''n1'')
   \<and> selects (ByNode ''n1'') (Some ''n1'')
   \<and> copy_files
        [\<lparr>file_id = Some ''f1'', file_contentnode_id = Some ''n1'',
          file_assessment_item_id = None, file_checksum = ''abc''\<rparr>]
        Map.empty (Some ''n1'') None
       = Inl (KeyError ''n1'')
   \<and> copy_assessment_items uuid_of
        [\<lparr>item_id = Some ''7'', item_contentnode_id = ''n1'', assessment_id = ''q1''\<rparr>]
        [\<lparr>file_id = Some ''f1'', file_contentnode_id = Some ''n1'',
          file_assessment_item_id = None, file_checksum = ''abc''\<rparr>]
        Map.empty (Some ''n1'') None
       = Inl (KeyError ''n1'')
   \<and> (\<exists>msg. copy_tags uuid_of
        [\<lparr>tag_id = ''t1'', tag_name = ''math'', tag_channel = Some ''ch''\<rparr>]
        [\<lparr>contenttag_id = ''t1'', tagging_contentnode_id = Some ''n1''\<rparr>]
        Map.empty (Some ''n1'') None
       = Inl (IntegrityError msg))
   \<and> copy_files
        [\<lparr>file_id = Some ''f1'', file_contentnode_id = Some ''n1'',
          file_assessment_item_id = None, file_checksum = ''abc''\<rparr>]
        [''n1'' \<mapsto> ''c1''] (Some ''n1'') None
       = Inr [\<lparr>file_id = None, file_contentnode_id = Some ''c1'',
               file_assessment_item_id = None, file_checksum = ''abc''\<rparr>]
   \<and> copy_assessment_items uuid_of
        [\<lparr>item_id = Some ''7'', item_contentnode_id = ''n1'', assessment_id = ''q1''\<rparr>]
        [\<lparr>file_id = Some ''f1'', file_contentnode_id = Some ''n1'',
          file_assessment_item_id = None, file_checksum = ''abc''\<rparr>]
        [''n1'' \<mapsto> ''c1''] (Some ''n1'') None
       = Inr ([\<lparr>item_id = Some ''u'', item_contentnode_id = ''c1'', assessment_id = ''q1''\<rparr>], [])
   \<and> copy_tags uuid_of
        [\<lparr>tag_id = ''t1'', tag_name = ''math'', tag_channel = Some ''ch''\<rparr>]
        [\<lparr>contenttag_id = ''t1'', tagging_contentnode_id = Some ''n1''\<rparr>]
        [''n1'' \<mapsto> ''c1''] (Some ''n1'') None
       = Inr ([\<lparr>tag_id = ''u'', tag_name = ''math'', tag_channel = None\<rparr>],
              [\<lparr>contenttag_id = ''u'', tagging_contentnode_id = Some ''c1''\<rparr>])"
proof -
  have p: "parse_filter_kwargs (Some ''n1'') None = Inr (ByNode ''n1'')"
    by (simp add: parse_filter_kwargs_def)
  note t = missing_node_id_is_fatal[OF p, of "''n1''" Map.empty
      "[\<lparr>file_id = Some ''f1'', file_contentnode_id = Some ''n1'',
          file_assessment_item_id = None, file_checksum = ''abc''\<rparr>]"
      "[\<lparr>item_id = Some ''7'', item_contentnode_id = ''n1'', assessment_id = ''q1''\<rparr>]"
      uuid_of
      "[\<lparr>contenttag_id = ''t1'', tagging_contentnode_id = Some ''n1''\<rparr>]"
      uuid_of
      "[\<lparr>tag_id = ''t1'', tag_name = ''math'', tag_channel = Some ''ch''\<rparr>]"]
  from t have tg: "\<exists>msg. copy_tags uuid_of
        [\<lparr>tag_id = ''t1'', tag_name = ''math'', tag_channel = Some ''ch''\<rparr>]
        [\<lparr>contenttag_id = ''t1'', tagging_contentnode_id = Some ''n1''\<rparr>]
        Map.empty (Some ''n1'') None
       = Inl (IntegrityError msg)" by simp
  show ?thesis
    apply (intro conjI)
           apply (rule p)
          apply simp
         apply (simp add: copy_files_def parse_filter_kwargs_def)
        apply (simp add: copy_assessment_items_def parse_filter_kwargs_def Let_def)
       apply (rule tg)
      apply (simp add: copy_files_def parse_filter_kwargs_def)
     apply (simp add: copy_assessment_items_def parse_filter_kwargs_def Let_def item_key_def)
    apply (simp add: copy_tags_def parse_filter_kwargs_def Let_def bulk_create_taggings_def)
    done
qed

end
